theory Spec2Isabelle
  imports Complex_Main "HOL-Library.Log_Nat"
begin

section \<open>Numbers and dates\<close>

text \<open>
  A JavaScript Number is an IEEE 754 double. The model takes a finite double as the real
  number it denotes, and every arithmetic operation of the formulas of the schemas (calories
  burned, BMR, BMI, meal totals) as the exact operation followed by the rounding
  \<open>double_of\<close> to the nearest double, as the language defines it. A numeric literal of the
  source denotes the double nearest to its decimal value. The non-finite results are the
  values of the type \<open>number\<close>. The sleep duration and the sums and averages of the
  dashboard summaries are in doubles as well. The weight change and the goal progress of the
  dashboard subtract and divide stored values: these operations are written exactly. A Date
  is its time value, the number of milliseconds since the epoch.
\<close>

type_synonym Date = int

text \<open>\<^verbatim>\<open>Math.round(x)\<close>: the nearest integer, a tie going towards plus infinity.\<close>

definition Math_round :: "real \<Rightarrow> real" where
  "Math_round x = of_int \<lfloor>x + 1 / 2\<rfloor>"

text \<open>The nearest integer, a tie going to the even one.\<close>

definition round_half_even :: "real \<Rightarrow> int" where
  "round_half_even y =
     (let f = \<lfloor>y\<rfloor>; d = y - of_int f
      in if d < 1 / 2 then f else if 1 / 2 < d then f + 1 else if even f then f else f + 1)"

text \<open>
  Scaled by \<open>2 ^ 1074\<close> every double is an integer. A non-negative scaled value of more
  than 53 bits keeps its 53 leading bits, rounded to nearest with a tie going to the even
  significand (\<open>k\<close> is the number of bits dropped); a smaller one is in the subnormal
  range and is rounded to an integer.
\<close>

definition scaled_double :: "real \<Rightarrow> real" where
  "scaled_double y =
     (let k = nat (bitlen \<lfloor>y\<rfloor> - 53)
      in of_int (round_half_even (y / 2 ^ k)) * 2 ^ k)"

text \<open>
  The double nearest to a real number. A magnitude that rounds to \<open>2 ^ 1024\<close> or more is
  \<^verbatim>\<open>Infinity\<close> in the language and is outside the model: the properties below carry
  ranges, those of the schemas where they have them, under which no result comes near it.
  (The quality scores are 25, 50, 75 and 100, and sums of bounded numbers stop growing long
  before it.)
\<close>

definition double_of :: "real \<Rightarrow> real" where
  "double_of x = sgn x * (scaled_double (\<bar>x\<bar> * 2 ^ 1074) / 2 ^ 1074)"

text \<open>\<^verbatim>\<open>a + b\<close>, \<^verbatim>\<open>a - b\<close>, \<^verbatim>\<open>a * b\<close> and \<^verbatim>\<open>a / b\<close> on finite doubles, the divisor not zero.\<close>

definition double_plus :: "real \<Rightarrow> real \<Rightarrow> real" where
  "double_plus a b = double_of (a + b)"

definition double_minus :: "real \<Rightarrow> real \<Rightarrow> real" where
  "double_minus a b = double_of (a - b)"

definition double_times :: "real \<Rightarrow> real \<Rightarrow> real" where
  "double_times a b = double_of (a * b)"

definition double_divide :: "real \<Rightarrow> real \<Rightarrow> real" where
  "double_divide a b = double_of (a / b)"

text \<open>
  The result of an arithmetic expression that may divide by zero: a finite value, an
  infinity or \<^verbatim>\<open>NaN\<close>.
\<close>

datatype number = Finite real | PosInfinity | NegInfinity | NaN

text \<open>
  \<^verbatim>\<open>x.toFixed(1)\<close>, read back as the number its digits denote: the sign is split off and
  the magnitude is rounded to one decimal, a tie going to the larger magnitude.
\<close>

definition toFixed1 :: "real \<Rightarrow> real" where
  "toFixed1 x = (if x < 0 then - (of_int \<lfloor>(- x) * 10 + 1 / 2\<rfloor> / 10)
                 else of_int \<lfloor>x * 10 + 1 / 2\<rfloor> / 10)"

section \<open>User (models/User.js)\<close>

record user =
  gender :: string
  age :: real
  weight :: real
  height :: real
  activityLevel :: string
  targetWeight :: "real option"

text \<open>\<^verbatim>\<open>userSchema.methods.calculateBMI\<close>\<close>

definition user_calculateBMI :: "user \<Rightarrow> real" where
  "user_calculateBMI u =
     (let heightInMeters = double_divide (height u) 100
      in toFixed1 (double_divide (weight u) (double_times heightInMeters heightInMeters)))"

text \<open>\<^verbatim>\<open>userSchema.methods.calculateBMR\<close>\<close>

definition calculateBMR :: "user \<Rightarrow> real" where
  "calculateBMR u =
     (let bmr = (if gender u = ''male''
                 then double_minus
                        (double_plus
                          (double_plus (double_of (88362 / 1000))
                            (double_times (double_of (13397 / 1000)) (weight u)))
                          (double_times (double_of (4799 / 1000)) (height u)))
                        (double_times (double_of (5677 / 1000)) (age u))
                 else double_minus
                        (double_plus
                          (double_plus (double_of (447593 / 1000))
                            (double_times (double_of (9247 / 1000)) (weight u)))
                          (double_times (double_of (3098 / 1000)) (height u)))
                        (double_times (double_of (4330 / 1000)) (age u)))
      in Math_round bmr)"

section \<open>Workout (models/Workout.js)\<close>

text \<open>
  \<^verbatim>\<open>MET_VALUES\<close>, the table of metabolic equivalents: exercise type, then intensity, with the
  decimal values as the source writes them.
\<close>

definition MET_VALUES :: "(string \<times> (string \<times> real) list) list" where
  "MET_VALUES =
    [(''running'', [(''5 mph'', 83 / 10), (''6 mph'', 98 / 10), (''7 mph'', 11),
                    (''8 mph'', 118 / 10), (''9 mph'', 128 / 10), (''10 mph'', 145 / 10)]),
     (''cycling'', [(''leisurely'', 35 / 10), (''moderate'', 68 / 10), (''vigorous'', 10),
                    (''racing'', 158 / 10)]),
     (''swimming'', [(''leisurely'', 58 / 10), (''moderate'', 7), (''vigorous'', 98 / 10)]),
     (''yoga'', [(''hatha'', 25 / 10), (''power'', 4), (''vinyasa'', 3)]),
     (''weightlifting'', [(''light'', 3), (''moderate'', 5), (''vigorous'', 6)]),
     (''walking'', [(''slow'', 2), (''moderate'', 35 / 10), (''brisk'', 43 / 10),
                    (''very_brisk'', 5)]),
     (''dancing'', [(''slow'', 3), (''moderate'', 48 / 10), (''fast'', 55 / 10)]),
     (''basketball'', [(''casual'', 6), (''competitive'', 8)]),
     (''soccer'', [(''casual'', 7), (''competitive'', 10)]),
     (''tennis'', [(''singles'', 8), (''doubles'', 5)]),
     (''hiking'', [(''easy'', 4), (''moderate'', 6), (''strenuous'', 8)])]"

text \<open>The pairs of the table: \<open>MET exerciseType intensity\<close> is the value written for the pair.\<close>

definition MET :: "string \<Rightarrow> string \<Rightarrow> real option" where
  "MET exerciseType intensity =
     (case map_of MET_VALUES exerciseType of
        None \<Rightarrow> None
      | Some intensities \<Rightarrow> map_of intensities intensity)"

text \<open>
  What the method observes of the value of \<^verbatim>\<open>MET_VALUES[exerciseType]?.[intensity]\<close>: it is
  falsy (\<^verbatim>\<open>undefined\<close> when nothing is found), or it is truthy and has a value as a number
  (\<^verbatim>\<open>NaN\<close> for a function or an object), or reading it throws.
\<close>

datatype looked_up = Falsy | Truthy number | Throws

text \<open>
  The lookup finds the pairs of the table, whose values are the doubles of the literals.
  For any other pair the property access goes on along the prototype chain of the runtime:
  every exercise's object inherits, among others, \<^verbatim>\<open>constructor\<close>. What is found there is
  the parameter \<open>inherited\<close>.
\<close>

definition lookup_MET :: "(string \<Rightarrow> string \<Rightarrow> looked_up) \<Rightarrow> string \<Rightarrow> string \<Rightarrow> looked_up" where
  "lookup_MET inherited exerciseType intensity =
     (case MET exerciseType intensity of
        None \<Rightarrow> inherited exerciseType intensity
      | Some v \<Rightarrow> if double_of v = 0 then Falsy else Truthy (Finite (double_of v)))"

record workout =
  w_user :: nat
  exerciseType :: string
  intensity :: string
  w_duration :: real
  w_date :: Date
  caloriesBurned :: real

datatype error = UserNotFound | InvalidExercise | Thrown

text \<open>\<^verbatim>\<open>metValue * x\<close> for a finite \<open>x\<close>.\<close>

fun number_times :: "number \<Rightarrow> real \<Rightarrow> number" where
  "number_times (Finite a) x = Finite (double_times a x)"
| "number_times PosInfinity x =
     (if 0 < x then PosInfinity else if x < 0 then NegInfinity else NaN)"
| "number_times NegInfinity x =
     (if 0 < x then NegInfinity else if x < 0 then PosInfinity else NaN)"
| "number_times NaN x = NaN"

text \<open>\<^verbatim>\<open>Math.round\<close> of a number that may not be finite.\<close>

fun Math_round_number :: "number \<Rightarrow> number" where
  "Math_round_number (Finite x) = Finite (Math_round x)"
| "Math_round_number PosInfinity = PosInfinity"
| "Math_round_number NegInfinity = NegInfinity"
| "Math_round_number NaN = NaN"

text \<open>
  \<^verbatim>\<open>workoutSchema.methods.calculateCaloriesBurned\<close>. The promise is a sum: a rejection is
  \<open>Inl\<close>, a resolution is \<open>Inr\<close> of the value that is assigned to \<^verbatim>\<open>caloriesBurned\<close> and
  resolved. \<^verbatim>\<open>populate('user')\<close> reads the user collection. An exception in the callback
  rejects the promise through \<^verbatim>\<open>.catch(reject)\<close>.
\<close>

definition calculateCaloriesBurned ::
  "(string \<Rightarrow> string \<Rightarrow> looked_up) \<Rightarrow> (nat \<rightharpoonup> user) \<Rightarrow> workout \<Rightarrow> error + number" where
  "calculateCaloriesBurned inherited users w =
     (case users (w_user w) of
        None \<Rightarrow> Inl UserNotFound
      | Some u \<Rightarrow>
          (case lookup_MET inherited (exerciseType w) (intensity w) of
             Throws \<Rightarrow> Inl Thrown
           | Falsy \<Rightarrow> Inl InvalidExercise
           | Truthy metValue \<Rightarrow>
               (let timeInHours = double_divide (w_duration w) 60;
                    calories = number_times (number_times metValue (weight u)) timeInHours
                in Inr (Math_round_number calories))))"

section \<open>Meal (models/Meal.js)\<close>

record FoodItem =
  food_name :: string
  quantity :: real
  unit :: string
  calories :: real
  protein :: real
  carbs :: real
  fat :: real
  fiber :: real
  sugar :: real

record meal =
  m_user :: nat
  mealType :: string
  m_date :: Date
  foods :: "FoodItem list"
  totalCalories :: real
  totalProtein :: real
  totalCarbs :: real
  totalFat :: real
  totalFiber :: real
  totalSugar :: real

text \<open>The body of the \<^verbatim>\<open>forEach\<close> of \<^verbatim>\<open>calculateTotals\<close>.\<close>

definition add_food :: "FoodItem \<Rightarrow> meal \<Rightarrow> meal" where
  "add_food food m =
     m\<lparr>totalCalories := double_plus (totalCalories m) (double_times (calories food) (quantity food)),
       totalProtein := double_plus (totalProtein m) (double_times (protein food) (quantity food)),
       totalCarbs := double_plus (totalCarbs m) (double_times (carbs food) (quantity food)),
       totalFat := double_plus (totalFat m) (double_times (fat food) (quantity food)),
       totalFiber := double_plus (totalFiber m) (double_times (fiber food) (quantity food)),
       totalSugar := double_plus (totalSugar m) (double_times (sugar food) (quantity food))\<rparr>"

text \<open>\<^verbatim>\<open>Math.round(x * 100) / 100\<close>\<close>

definition round_to_hundredths :: "real \<Rightarrow> real" where
  "round_to_hundredths x = double_divide (Math_round (double_times x 100)) 100"

text \<open>\<^verbatim>\<open>mealSchema.methods.calculateTotals\<close>\<close>

definition calculateTotals :: "meal \<Rightarrow> meal" where
  "calculateTotals m =
     (let m0 = m\<lparr>totalCalories := 0, totalProtein := 0, totalCarbs := 0,
                 totalFat := 0, totalFiber := 0, totalSugar := 0\<rparr>;
          m1 = fold add_food (foods m0) m0
      in m1\<lparr>totalCalories := round_to_hundredths (totalCalories m1),
            totalProtein := round_to_hundredths (totalProtein m1),
            totalCarbs := round_to_hundredths (totalCarbs m1),
            totalFat := round_to_hundredths (totalFat m1),
            totalFiber := round_to_hundredths (totalFiber m1),
            totalSugar := round_to_hundredths (totalSugar m1)\<rparr>)"

section \<open>Sleep (models/Sleep.js)\<close>

record sleep =
  s_user :: nat
  sleepStart :: "Date option"
  sleepEnd :: "Date option"
  s_date :: Date
  s_duration :: real
  quality :: string

text \<open>
  \<^verbatim>\<open>sleepSchema.methods.calculateDuration\<close>: the returned value and the record with its
  \<^verbatim>\<open>duration\<close> set. A missing start or end returns 0 and leaves the record as it is.
  \<^verbatim>\<open>endTime.setDate(endTime.getDate() + 1)\<close> moves a date to the same wall-clock time on the
  next calendar day of the local time zone. How many milliseconds that is depends on the
  zone and on the date (24 hours where the clock does not change; 23 or 25 hours across a
  clock change), so the local calendar is the parameter \<open>next_day\<close>.
\<close>

definition calculateDuration :: "(Date \<Rightarrow> Date) \<Rightarrow> sleep \<Rightarrow> real \<times> sleep" where
  "calculateDuration next_day s =
     (case sleepStart s of
        None \<Rightarrow> (0, s)
      | Some startTime \<Rightarrow>
          (case sleepEnd s of
             None \<Rightarrow> (0, s)
           | Some e \<Rightarrow>
               (let endTime = (if e < startTime then next_day e else e);
                    durationMs = double_minus (of_int endTime) (of_int startTime);
                    d = Math_round (double_divide durationMs (double_times 1000 60))
                in (d, s\<lparr>s_duration := d\<rparr>))))"

text \<open>The local calendar of a time zone without clock changes, and the day of 23 hours.\<close>

definition day_of_24_hours :: "Date \<Rightarrow> Date" where
  "day_of_24_hours t = t + 24 * 60 * 60 * 1000"

definition day_of_23_hours :: "Date \<Rightarrow> Date" where
  "day_of_23_hours t = t + 23 * 60 * 60 * 1000"

text \<open>\<^verbatim>\<open>sleepSchema.methods.getQualityScore\<close>\<close>

definition qualityScores :: "(string \<times> real) list" where
  "qualityScores = [(''poor'', 25), (''fair'', 50), (''good'', 75), (''excellent'', 100)]"

definition getQualityScore :: "sleep \<Rightarrow> real" where
  "getQualityScore s =
     (case map_of qualityScores (quality s) of
        None \<Rightarrow> 75
      | Some v \<Rightarrow> if v = 0 then 75 else v)"

section \<open>Progress (models/Progress.js)\<close>

record progress =
  p_user :: nat
  p_date :: Date
  p_weight :: real
  bodyFat :: "real option"
  muscleMass :: "real option"

datatype bmi_category = Underweight | Normal_weight | Overweight | Obese

text \<open>\<^verbatim>\<open>progressSchema.methods.calculateBMI\<close>\<close>

definition progress_calculateBMI :: "(nat \<rightharpoonup> user) \<Rightarrow> progress \<Rightarrow> error + real" where
  "progress_calculateBMI users p =
     (case users (p_user p) of
        None \<Rightarrow> Inl UserNotFound
      | Some u \<Rightarrow>
          (let heightInMeters = double_divide (height u) 100;
               bmi = double_divide (p_weight p) (double_times heightInMeters heightInMeters)
           in Inr (double_divide (Math_round (double_times bmi 10)) 10)))"

text \<open>The threshold cascade inside \<^verbatim>\<open>getBMICategory\<close>.\<close>

definition category_of :: "real \<Rightarrow> bmi_category" where
  "category_of bmi =
     (if bmi < 185 / 10 then Underweight
      else if bmi \<ge> 185 / 10 \<and> bmi < 25 then Normal_weight
      else if bmi \<ge> 25 \<and> bmi < 30 then Overweight
      else Obese)"

text \<open>\<^verbatim>\<open>progressSchema.methods.getBMICategory\<close>\<close>

definition getBMICategory :: "(nat \<rightharpoonup> user) \<Rightarrow> progress \<Rightarrow> error + (real \<times> bmi_category)" where
  "getBMICategory users p =
     (case progress_calculateBMI users p of
        Inl e \<Rightarrow> Inl e
      | Inr bmi \<Rightarrow> Inr (bmi, category_of bmi))"

text \<open>The order of the categories, from the lowest BMI range to the highest.\<close>

fun category_rank :: "bmi_category \<Rightarrow> nat" where
  "category_rank Underweight = 0"
| "category_rank Normal_weight = 1"
| "category_rank Overweight = 2"
| "category_rank Obese = 3"

section \<open>Dashboard (routes/dashboard.js)\<close>

subsection \<open>Fetching the record sets\<close>

text \<open>
  A collection is the list of its documents. \<^verbatim>\<open>find(query).sort({ date: -1 })\<close> keeps the
  documents that match and orders them by date, latest first; \<^verbatim>\<open>limit(10)\<close> keeps the first
  ten of them.
\<close>

definition sort_date_desc :: "('a \<Rightarrow> Date) \<Rightarrow> 'a list \<Rightarrow> 'a list" where
  "sort_date_desc d xs = sort_key (\<lambda>x. - d x) xs"

definition fetch_dailyWorkouts :: "workout list \<Rightarrow> nat \<Rightarrow> Date \<Rightarrow> Date \<Rightarrow> workout list" where
  "fetch_dailyWorkouts coll uid startOfDay endOfDay =
     sort_date_desc w_date
       (filter (\<lambda>w. w_user w = uid \<and> startOfDay \<le> w_date w \<and> w_date w \<le> endOfDay) coll)"

definition fetch_dailyMeals :: "meal list \<Rightarrow> nat \<Rightarrow> Date \<Rightarrow> Date \<Rightarrow> meal list" where
  "fetch_dailyMeals coll uid startOfDay endOfDay =
     sort_date_desc m_date
       (filter (\<lambda>m. m_user m = uid \<and> startOfDay \<le> m_date m \<and> m_date m \<le> endOfDay) coll)"

definition fetch_dailySleep :: "sleep list \<Rightarrow> nat \<Rightarrow> Date \<Rightarrow> Date \<Rightarrow> sleep list" where
  "fetch_dailySleep coll uid startOfDay endOfDay =
     sort_date_desc s_date
       (filter (\<lambda>s. s_user s = uid \<and> startOfDay \<le> s_date s \<and> s_date s \<le> endOfDay) coll)"

text \<open>The weekly record sets have no upper bound on the date.\<close>

definition fetch_weeklyWorkouts :: "workout list \<Rightarrow> nat \<Rightarrow> Date \<Rightarrow> workout list" where
  "fetch_weeklyWorkouts coll uid startOfWeek =
     sort_date_desc w_date (filter (\<lambda>w. w_user w = uid \<and> startOfWeek \<le> w_date w) coll)"

definition fetch_weeklyMeals :: "meal list \<Rightarrow> nat \<Rightarrow> Date \<Rightarrow> meal list" where
  "fetch_weeklyMeals coll uid startOfWeek =
     sort_date_desc m_date (filter (\<lambda>m. m_user m = uid \<and> startOfWeek \<le> m_date m) coll)"

definition fetch_weeklySleep :: "sleep list \<Rightarrow> nat \<Rightarrow> Date \<Rightarrow> sleep list" where
  "fetch_weeklySleep coll uid startOfWeek =
     sort_date_desc s_date (filter (\<lambda>s. s_user s = uid \<and> startOfWeek \<le> s_date s) coll)"

text \<open>The progress records of the user in the last 30 days, latest first, before the limit.\<close>

definition progress_in_window :: "progress list \<Rightarrow> nat \<Rightarrow> Date \<Rightarrow> progress list" where
  "progress_in_window coll uid now =
     sort_date_desc p_date
       (filter (\<lambda>p. p_user p = uid \<and> now - 30 * 24 * 60 * 60 * 1000 \<le> p_date p) coll)"

definition fetch_recentProgress :: "progress list \<Rightarrow> nat \<Rightarrow> Date \<Rightarrow> progress list" where
  "fetch_recentProgress coll uid now = take 10 (progress_in_window coll uid now)"

subsection \<open>Daily and weekly summaries\<close>

record workouts_summary =
  ws_count :: nat
  ws_totalDuration :: real
  ws_totalCalories :: real
  ws_averageDuration :: real

record meals_summary =
  ms_count :: nat
  ms_totalCalories :: real
  ms_totalProtein :: real
  ms_totalCarbs :: real
  ms_totalFat :: real

record sleep_summary =
  ss_count :: nat
  ss_totalDuration :: real
  ss_averageDuration :: real
  ss_averageQuality :: real

record summary =
  workouts :: workouts_summary
  meals :: meals_summary
  sleep :: sleep_summary

text \<open>\<^verbatim>\<open>xs.reduce((sum, x) => sum + f(x), 0)\<close>\<close>

definition reduce_sum :: "('a \<Rightarrow> real) \<Rightarrow> 'a list \<Rightarrow> real" where
  "reduce_sum f xs = foldl (\<lambda>sum x. double_plus sum (f x)) 0 xs"

definition dailySummary :: "workout list \<Rightarrow> meal list \<Rightarrow> sleep list \<Rightarrow> summary" where
  "dailySummary dailyWorkouts dailyMeals dailySleep =
     \<lparr>workouts =
        \<lparr>ws_count = length dailyWorkouts,
         ws_totalDuration = reduce_sum w_duration dailyWorkouts,
         ws_totalCalories = reduce_sum caloriesBurned dailyWorkouts,
         ws_averageDuration =
           (if length dailyWorkouts > 0
            then Math_round (double_divide (reduce_sum w_duration dailyWorkouts)
                               (of_nat (length dailyWorkouts)))
            else 0)\<rparr>,
      meals =
        \<lparr>ms_count = length dailyMeals,
         ms_totalCalories = reduce_sum totalCalories dailyMeals,
         ms_totalProtein = reduce_sum totalProtein dailyMeals,
         ms_totalCarbs = reduce_sum totalCarbs dailyMeals,
         ms_totalFat = reduce_sum totalFat dailyMeals\<rparr>,
      sleep =
        \<lparr>ss_count = length dailySleep,
         ss_totalDuration = reduce_sum s_duration dailySleep,
         ss_averageDuration =
           (if length dailySleep > 0
            then Math_round (double_divide (reduce_sum s_duration dailySleep)
                               (of_nat (length dailySleep)))
            else 0),
         ss_averageQuality =
           (if length dailySleep > 0
            then Math_round (double_divide (reduce_sum getQualityScore dailySleep)
                               (of_nat (length dailySleep)))
            else 0)\<rparr>\<rparr>"

text \<open>\<^verbatim>\<open>weeklySummary\<close> is the same object over the weekly record sets.\<close>

definition weeklySummary :: "workout list \<Rightarrow> meal list \<Rightarrow> sleep list \<Rightarrow> summary" where
  "weeklySummary weeklyWorkouts weeklyMeals weeklySleep =
     \<lparr>workouts =
        \<lparr>ws_count = length weeklyWorkouts,
         ws_totalDuration = reduce_sum w_duration weeklyWorkouts,
         ws_totalCalories = reduce_sum caloriesBurned weeklyWorkouts,
         ws_averageDuration =
           (if length weeklyWorkouts > 0
            then Math_round (double_divide (reduce_sum w_duration weeklyWorkouts)
                               (of_nat (length weeklyWorkouts)))
            else 0)\<rparr>,
      meals =
        \<lparr>ms_count = length weeklyMeals,
         ms_totalCalories = reduce_sum totalCalories weeklyMeals,
         ms_totalProtein = reduce_sum totalProtein weeklyMeals,
         ms_totalCarbs = reduce_sum totalCarbs weeklyMeals,
         ms_totalFat = reduce_sum totalFat weeklyMeals\<rparr>,
      sleep =
        \<lparr>ss_count = length weeklySleep,
         ss_totalDuration = reduce_sum s_duration weeklySleep,
         ss_averageDuration =
           (if length weeklySleep > 0
            then Math_round (double_divide (reduce_sum s_duration weeklySleep)
                               (of_nat (length weeklySleep)))
            else 0),
         ss_averageQuality =
           (if length weeklySleep > 0
            then Math_round (double_divide (reduce_sum getQualityScore weeklySleep)
                               (of_nat (length weeklySleep)))
            else 0)\<rparr>\<rparr>"

subsection \<open>Progress summary, current BMI, goal progress, weight trend\<close>

record progress_summary =
  currentWeight :: real
  weightChange :: real
  monthlyEntries :: nat
  recentEntries :: "progress list"

text \<open>
  \<^verbatim>\<open>recentProgress[0]\<close> and \<^verbatim>\<open>recentProgress[recentProgress.length - 1]\<close> are read only
  under the length tests of the source, so they are in range.
\<close>

definition progressSummary :: "user \<Rightarrow> progress list \<Rightarrow> progress list \<Rightarrow> progress_summary" where
  "progressSummary req_user monthlyProgress recentProgress =
     \<lparr>currentWeight =
        (if length recentProgress > 0 then p_weight (recentProgress ! 0) else weight req_user),
      weightChange =
        (if length recentProgress > 1
         then p_weight (recentProgress ! 0)
                - p_weight (recentProgress ! (length recentProgress - 1))
         else 0),
      monthlyEntries = length monthlyProgress,
      recentEntries = take 5 recentProgress\<rparr>"

text \<open>\<^verbatim>\<open>currentBMI\<close>: \<open>None\<close> is the \<^verbatim>\<open>null\<close> it is initialised with.\<close>

definition currentBMI :: "user \<Rightarrow> progress list \<Rightarrow> real option" where
  "currentBMI req_user recentProgress =
     (if length recentProgress > 0
      then (let heightInMeters = double_divide (height req_user) 100
            in Some (toFixed1 (double_divide (p_weight (recentProgress ! 0))
                                 (double_times heightInMeters heightInMeters))))
      else None)"

text \<open>\<^verbatim>\<open>a / b\<close> for finite operands; the zero divisor here is a difference, so it is \<open>+0\<close>.\<close>

definition js_divide :: "real \<Rightarrow> real \<Rightarrow> number" where
  "js_divide a b =
     (if b = 0 then (if a = 0 then NaN else if a > 0 then PosInfinity else NegInfinity)
      else Finite (a / b))"

text \<open>\<^verbatim>\<open>x * 100\<close>\<close>

fun times_100 :: "number \<Rightarrow> number" where
  "times_100 (Finite x) = Finite (x * 100)"
| "times_100 PosInfinity = PosInfinity"
| "times_100 NegInfinity = NegInfinity"
| "times_100 NaN = NaN"

text \<open>\<^verbatim>\<open>Math.abs(x)\<close>\<close>

fun Math_abs :: "number \<Rightarrow> number" where
  "Math_abs (Finite x) = Finite \<bar>x\<bar>"
| "Math_abs PosInfinity = PosInfinity"
| "Math_abs NegInfinity = PosInfinity"
| "Math_abs NaN = NaN"

text \<open>
  \<^verbatim>\<open>goalProgress\<close>: the starting weight of the formula is the profile weight
  \<^verbatim>\<open>req.user.weight\<close>; a missing or zero target weight is falsy and gives 0.
\<close>

definition goalProgress :: "user \<Rightarrow> progress_summary \<Rightarrow> number" where
  "goalProgress req_user summary =
     (case targetWeight req_user of
        None \<Rightarrow> Finite 0
      | Some t \<Rightarrow>
          if t = 0 then Finite 0
          else Math_abs (times_100
                 (js_divide (t - currentWeight summary) (weight req_user - t))))"

text \<open>\<^verbatim>\<open>charts.weightTrend\<close>\<close>

definition weightTrend :: "progress list \<Rightarrow> (Date \<times> real) list" where
  "weightTrend recentProgress = map (\<lambda>p. (p_date p, p_weight p)) recentProgress"

section \<open>Vocabulary of the properties and example inputs\<close>

subsection \<open>The formulas as the specification words them\<close>

text \<open>The two BMR formulas on exact numbers, and evaluated in doubles from left to right.\<close>

definition BMR_male_exact :: "real \<Rightarrow> real \<Rightarrow> real \<Rightarrow> real" where
  "BMR_male_exact w h a = 88362 / 1000 + 13397 / 1000 * w + 4799 / 1000 * h - 5677 / 1000 * a"

definition BMR_female_exact :: "real \<Rightarrow> real \<Rightarrow> real \<Rightarrow> real" where
  "BMR_female_exact w h a = 447593 / 1000 + 9247 / 1000 * w + 3098 / 1000 * h - 4330 / 1000 * a"

definition BMR_in_doubles :: "real \<Rightarrow> real \<Rightarrow> real \<Rightarrow> real \<Rightarrow> real \<Rightarrow> real \<Rightarrow> real \<Rightarrow> real" where
  "BMR_in_doubles c0 c1 c2 c3 w h a =
     double_minus
       (double_plus
         (double_plus (double_of c0) (double_times (double_of c1) w))
         (double_times (double_of c2) h))
       (double_times (double_of c3) a)"

text \<open>
  The specification's rounding of a sum \<open>s\<close> to two decimal places, half up: \<open>r\<close> has
  at most two decimals and \<open>s\<close> lies in the interval from \<open>r - 0.005\<close> (included) to
  \<open>r + 0.005\<close> (excluded).
\<close>

definition rounded_2dp_half_up :: "real \<Rightarrow> real \<Rightarrow> bool" where
  "rounded_2dp_half_up s r \<longleftrightarrow>
     of_int \<lfloor>r * 100\<rfloor> = r * 100 \<and> r - 1 / 200 \<le> s \<and> s < r + 1 / 200"

text \<open>
  The sum over the list of field * quantity, accumulated in doubles from left to right,
  starting from 0.
\<close>

definition sum_in_doubles :: "(FoodItem \<Rightarrow> real) \<Rightarrow> FoodItem list \<Rightarrow> real" where
  "sum_in_doubles field fs =
     foldl (\<lambda>s f. double_plus s (double_times (field f) (quantity f))) 0 fs"

text \<open>
  The rounding of a sum \<open>s\<close> in doubles: \<open>r\<close> is the double of \<open>n / 100\<close> for the integer
  \<open>n\<close> nearest to the double of \<open>s * 100\<close>, a tie going up.
\<close>

definition nearest_hundredth_in_doubles :: "real \<Rightarrow> real \<Rightarrow> bool" where
  "nearest_hundredth_in_doubles s r \<longleftrightarrow>
     (\<exists>n::int. r = double_divide (of_int n) 100
        \<and> of_int n - 1 / 2 \<le> double_times s 100 \<and> double_times s 100 < of_int n + 1 / 2)"

text \<open>
  Lists of foods on which no total comes near the largest double: quantities and values per
  unit from 0 to \<open>10 ^ 100\<close>.
\<close>

definition foods_in_range :: "FoodItem list \<Rightarrow> bool" where
  "foods_in_range fs \<longleftrightarrow>
     list_all (\<lambda>f. 0 \<le> quantity f \<and> quantity f \<le> 10 ^ 100
                \<and> 0 \<le> calories f \<and> calories f \<le> 10 ^ 100
                \<and> 0 \<le> protein f \<and> protein f \<le> 10 ^ 100
                \<and> 0 \<le> carbs f \<and> carbs f \<le> 10 ^ 100
                \<and> 0 \<le> fat f \<and> fat f \<le> 10 ^ 100
                \<and> 0 \<le> fiber f \<and> fiber f \<le> 10 ^ 100
                \<and> 0 \<le> sugar f \<and> sugar f \<le> 10 ^ 100) fs"

text \<open>
  Whole numbers of magnitude up to 100,000, in a list of at most 1,000 records: minutes of
  workouts and of sleep are such numbers.
\<close>

definition whole_numbers :: "('a \<Rightarrow> real) \<Rightarrow> 'a list \<Rightarrow> bool" where
  "whole_numbers f xs \<longleftrightarrow>
     length xs \<le> 1000 \<and> list_all (\<lambda>x. of_int \<lfloor>f x\<rfloor> = f x \<and> \<bar>f x\<bar> \<le> 100000) xs"

text \<open>Numbers of magnitude up to \<open>10 ^ 100\<close>: no sum of them comes near the largest double.\<close>

definition numbers_in_range :: "('a \<Rightarrow> real) \<Rightarrow> 'a list \<Rightarrow> bool" where
  "numbers_in_range f xs \<longleftrightarrow> list_all (\<lambda>x. \<bar>f x\<bar> \<le> 10 ^ 100) xs"

text \<open>\<open>r\<close> is the integer nearest to \<open>q\<close>, a tie going up.\<close>

definition nearest_integer :: "real \<Rightarrow> real \<Rightarrow> bool" where
  "nearest_integer q r \<longleftrightarrow>
     (\<exists>n::int. r = of_int n \<and> of_int n - 1 / 2 \<le> q \<and> q < of_int n + 1 / 2)"

subsection \<open>Users and workouts\<close>

definition users_80 :: "nat \<rightharpoonup> user" where
  "users_80 = [1 \<mapsto> \<lparr>gender = ''female'', age = 30, weight = 80, height = 170,
      activityLevel = ''moderately_active'', targetWeight = None\<rparr>]"

definition users_75 :: "nat \<rightharpoonup> user" where
  "users_75 = [1 \<mapsto> \<lparr>gender = ''female'', age = 30, weight = 75, height = 170,
      activityLevel = ''moderately_active'', targetWeight = None\<rparr>]"

definition workout_running_6mph_30 :: workout where
  "workout_running_6mph_30 =
     \<lparr>w_user = 1, exerciseType = ''running'', intensity = ''6 mph'', w_duration = 30,
      w_date = 0, caloriesBurned = 0\<rparr>"

definition workout_running_5mph_44 :: workout where
  "workout_running_5mph_44 =
     \<lparr>w_user = 1, exerciseType = ''running'', intensity = ''5 mph'', w_duration = 44,
      w_date = 0, caloriesBurned = 0\<rparr>"

definition workout_running_sprint :: workout where
  "workout_running_sprint =
     \<lparr>w_user = 1, exerciseType = ''running'', intensity = ''sprint'', w_duration = 30,
      w_date = 0, caloriesBurned = 0\<rparr>"

definition workout_running_constructor :: workout where
  "workout_running_constructor =
     \<lparr>w_user = 1, exerciseType = ''running'', intensity = ''constructor'', w_duration = 30,
      w_date = 0, caloriesBurned = 0\<rparr>"

text \<open>
  The inherited properties for the examples: of an exercise of the table, the property
  \<^verbatim>\<open>constructor\<close>, which every object has and which is a function.
\<close>

definition inherited_constructor :: "string \<Rightarrow> string \<Rightarrow> looked_up" where
  "inherited_constructor e i =
     (if map_of MET_VALUES e \<noteq> None \<and> i = ''constructor'' then Truthy NaN else Falsy)"

definition user_male_80_180_30 :: user where
  "user_male_80_180_30 =
     \<lparr>gender = ''male'', age = 30, weight = 80, height = 180,
      activityLevel = ''moderately_active'', targetWeight = None\<rparr>"

definition user_other_80_180_30 :: user where
  "user_other_80_180_30 =
     \<lparr>gender = ''other'', age = 30, weight = 80, height = 180,
      activityLevel = ''moderately_active'', targetWeight = None\<rparr>"

definition user_male_42_115_73 :: user where
  "user_male_42_115_73 =
     \<lparr>gender = ''male'', age = 73, weight = 42, height = 115,
      activityLevel = ''moderately_active'', targetWeight = None\<rparr>"

subsection \<open>Meals, sleep records and progress records\<close>

definition food_100_x2 :: FoodItem where
  "food_100_x2 = \<lparr>food_name = ''rice'', quantity = 2, unit = ''cup'', calories = 100,
                   protein = 0, carbs = 0, fat = 0, fiber = 0, sugar = 0\<rparr>"

definition food_50_x1 :: FoodItem where
  "food_50_x1 = \<lparr>food_name = ''apple'', quantity = 1, unit = ''piece'', calories = 50,
                  protein = 0, carbs = 0, fat = 0, fiber = 0, sugar = 0\<rparr>"

definition meal_example :: meal where
  "meal_example = \<lparr>m_user = 1, mealType = ''lunch'', m_date = 0,
                    foods = [food_100_x2, food_50_x1],
                    totalCalories = 0, totalProtein = 0, totalCarbs = 0, totalFat = 0,
                    totalFiber = 0, totalSugar = 0\<rparr>"

text \<open>A food with 0.05 of protein per unit, in the quantity 2.9, numbers received as doubles.\<close>

definition food_protein_005_x29 :: FoodItem where
  "food_protein_005_x29 =
     \<lparr>food_name = ''broth'', quantity = double_of (29 / 10), unit = ''cup'', calories = 0,
      protein = double_of (5 / 100), carbs = 0, fat = 0, fiber = 0, sugar = 0\<rparr>"

definition meal_protein_tie :: meal where
  "meal_protein_tie = \<lparr>m_user = 1, mealType = ''lunch'', m_date = 0,
                        foods = [food_protein_005_x29],
                        totalCalories = 0, totalProtein = 0, totalCarbs = 0, totalFat = 0,
                        totalFiber = 0, totalSugar = 0\<rparr>"

text \<open>Sleep from 23:00 to 06:00 (1970-01-01, UTC), the end before the start.\<close>

definition sleep_23_to_06 :: sleep where
  "sleep_23_to_06 = \<lparr>s_user = 1, sleepStart = Some 82800000, sleepEnd = Some 21600000,
                      s_date = 0, s_duration = 0, quality = ''good''\<rparr>"

text \<open>A sleep end two days before the sleep start.\<close>

definition sleep_end_two_days_before :: sleep where
  "sleep_end_two_days_before = \<lparr>s_user = 1, sleepStart = Some 172800000, sleepEnd = Some 0,
                                 s_date = 0, s_duration = 0, quality = ''good''\<rparr>"

text \<open>
  A sleep end 23 hours and a half before the sleep start (start 2024-03-10 16:00 UTC, end
  2024-03-09 16:30 UTC; the day between them has 23 hours in New York).
\<close>

definition sleep_end_23h30_before :: sleep where
  "sleep_end_23h30_before = \<lparr>s_user = 1, sleepStart = Some 1710086400000,
                              sleepEnd = Some 1710001800000,
                              s_date = 0, s_duration = 0, quality = ''good''\<rparr>"

definition users_height_200 :: "nat \<rightharpoonup> user" where
  "users_height_200 = [1 \<mapsto> \<lparr>gender = ''male'', age = 30, weight = 80, height = 200,
      activityLevel = ''moderately_active'', targetWeight = None\<rparr>]"

definition progress_of_weight :: "real \<Rightarrow> progress" where
  "progress_of_weight w = \<lparr>p_user = 1, p_date = 0, p_weight = w, bodyFat = None, muscleMass = None\<rparr>"

definition workout_of_duration :: "real \<Rightarrow> workout" where
  "workout_of_duration d =
     \<lparr>w_user = 1, exerciseType = ''walking'', intensity = ''brisk'', w_duration = d,
      w_date = 5000, caloriesBurned = 100\<rparr>"

definition two_workouts_30_45 :: "workout list" where
  "two_workouts_30_45 = [workout_of_duration 30, workout_of_duration 45]"

text \<open>The summaries whose numeric fields are all zero.\<close>

definition zero_summary :: summary where
  "zero_summary =
     \<lparr>workouts = \<lparr>ws_count = 0, ws_totalDuration = 0, ws_totalCalories = 0,
                   ws_averageDuration = 0\<rparr>,
      meals = \<lparr>ms_count = 0, ms_totalCalories = 0, ms_totalProtein = 0, ms_totalCarbs = 0,
                ms_totalFat = 0\<rparr>,
      sleep = \<lparr>ss_count = 0, ss_totalDuration = 0, ss_averageDuration = 0,
                ss_averageQuality = 0\<rparr>\<rparr>"

definition user_70_target_70 :: user where
  "user_70_target_70 =
     \<lparr>gender = ''female'', age = 30, weight = 70, height = 175,
      activityLevel = ''moderately_active'', targetWeight = Some 70\<rparr>"

definition progress_at :: "Date \<Rightarrow> real \<Rightarrow> progress" where
  "progress_at d w = \<lparr>p_user = 1, p_date = d, p_weight = w, bodyFat = None, muscleMass = None\<rparr>"

definition two_progress_records :: "progress list" where
  "two_progress_records = [progress_at 1000 80, progress_at 2000 79]"


definition user_80_height_160 :: user where
  "user_80_height_160 =
     \<lparr>gender = ''female'', age = 30, weight = 80, height = 160,
      activityLevel = ''moderately_active'', targetWeight = None\<rparr>"

definition users_height_160 :: "nat \<rightharpoonup> user" where
  "users_height_160 = [1 \<mapsto> user_80_height_160]"

section \<open>Properties\<close>

subsection \<open>Rounding to an integer\<close>

lemma Math_round_nearest: "\<bar>Math_round x - x\<bar> \<le> 1 / 2"
  unfolding Math_round_def by linarith

lemma Math_round_bounds: "Math_round x - 1 / 2 \<le> x \<and> x < Math_round x + 1 / 2"
  unfolding Math_round_def by linarith

lemma Math_round_mono: "x \<le> y \<Longrightarrow> Math_round x \<le> Math_round y"
  unfolding Math_round_def by (simp add: floor_mono)

lemma Math_round_is_int: "of_int \<lfloor>Math_round x\<rfloor> = Math_round x"
  unfolding Math_round_def by simp

lemma Math_round_nonneg: "0 \<le> x \<Longrightarrow> 0 \<le> Math_round x"
  unfolding Math_round_def by simp

lemma Math_round_characterised:
  assumes "\<bar>x - e\<bar> \<le> eps"
  shows "\<exists>n::int. Math_round x = of_int n \<and> of_int n - 1 / 2 \<le> x \<and> x < of_int n + 1 / 2
           \<and> \<bar>of_int n - e\<bar> \<le> 1 / 2 + eps"
proof (intro exI [of _ "\<lfloor>x + 1 / 2\<rfloor>"] conjI)
  show "Math_round x = of_int \<lfloor>x + 1 / 2\<rfloor>" by (simp add: Math_round_def)
  show "of_int \<lfloor>x + 1 / 2\<rfloor> - 1 / 2 \<le> x" "x < of_int \<lfloor>x + 1 / 2\<rfloor> + 1 / 2" by linarith+
  then show "\<bar>of_int \<lfloor>x + 1 / 2\<rfloor> - e\<bar> \<le> 1 / 2 + eps" using assms by linarith
qed

subsection \<open>Rounding to a double\<close>

lemma round_half_even_bounds:
  "of_int (round_half_even y) - 1 / 2 \<le> y \<and> y \<le> of_int (round_half_even y) + 1 / 2"
  unfolding round_half_even_def Let_def by (auto; linarith)

lemma round_half_even_of_int [simp]: "round_half_even (of_int n) = n"
  by (simp add: round_half_even_def)

lemma round_half_even_0 [simp]: "round_half_even 0 = 0"
  using round_half_even_of_int [of 0] by simp

lemma round_half_even_mono:
  assumes "y1 \<le> y2" shows "round_half_even y1 \<le> round_half_even y2"
proof (rule ccontr)
  assume "\<not> round_half_even y1 \<le> round_half_even y2"
  then have gt: "round_half_even y2 + 1 \<le> round_half_even y1" by simp
  then have "real_of_int (round_half_even y2) + 1 \<le> real_of_int (round_half_even y1)"
    by (metis of_int_1 of_int_add of_int_le_iff)
  with round_half_even_bounds [of y1] round_half_even_bounds [of y2] assms
  have "y1 = y2" by linarith
  with gt show False by simp
qed

lemma round_half_even_ge: "of_int n \<le> y \<Longrightarrow> n \<le> round_half_even y"
  using round_half_even_mono [of "of_int n" y] by simp

lemma round_half_even_le: "y \<le> of_int n \<Longrightarrow> round_half_even y \<le> n"
  using round_half_even_mono [of y "of_int n"] by simp

lemma double_of_0 [simp]: "double_of 0 = 0"
  by (simp add: double_of_def)

lemma double_of_minus: "double_of (- x) = - double_of x"
  by (simp add: double_of_def sgn_minus)

text \<open>The scaled value lies below the top of its binade, and at its bottom or above.\<close>

lemma binade_upper:
  fixes y :: real
  assumes "0 \<le> y"
  shows "y < 2 ^ (53 + nat (bitlen \<lfloor>y\<rfloor> - 53))"
proof -
  define n where "n = \<lfloor>y\<rfloor>"
  define k where "k = nat (bitlen n - 53)"
  have n0: "0 \<le> n" using assms by (simp add: n_def)
  have "n < 2 ^ (53 + k)"
  proof (cases "n = 0")
    case True then show ?thesis by simp
  next
    case False
    with n0 have pos: "0 < n" by simp
    have "n < 2 ^ nat (bitlen n)" using bitlen_bounds [OF pos] by simp
    also have "(2::int) ^ nat (bitlen n) \<le> 2 ^ (53 + k)"
      by (rule power_increasing) (auto simp: k_def)
    finally show ?thesis .
  qed
  then have "n + 1 \<le> 2 ^ (53 + k)" by simp
  then have "real_of_int (n + 1) \<le> real_of_int (2 ^ (53 + k))"
    by (simp only: of_int_le_iff)
  then have up: "real_of_int (n + 1) \<le> 2 ^ (53 + k)" by simp
  have "y < real_of_int (n + 1)" unfolding n_def by linarith
  then have "y < 2 ^ (53 + k)" using up by (rule less_le_trans)
  then show ?thesis unfolding k_def n_def .
qed

lemma binade_lower:
  fixes y :: real
  assumes "0 \<le> y" "0 < nat (bitlen \<lfloor>y\<rfloor> - 53)"
  shows "2 ^ (52 + nat (bitlen \<lfloor>y\<rfloor> - 53)) \<le> y"
proof -
  define n where "n = \<lfloor>y\<rfloor>"
  define k where "k = nat (bitlen n - 53)"
  from assms(2) have kpos: "0 < k" by (simp add: k_def n_def)
  then have bl: "bitlen n = 53 + int k" unfolding k_def by linarith
  have pos: "0 < n"
  proof (rule ccontr)
    assume "\<not> 0 < n"
    then have "bitlen n = 0" by (simp add: bitlen_eq_zero_iff)
    with bl show False by linarith
  qed
  have "nat (bitlen n - 1) = 52 + k" using bl by linarith
  with bitlen_bounds [OF pos] have "2 ^ (52 + k) \<le> n" by simp
  then have "real_of_int (2 ^ (52 + k)) \<le> real_of_int n"
    by (simp only: of_int_le_iff)
  also have "\<dots> \<le> y" unfolding n_def by simp
  finally show ?thesis unfolding k_def n_def by simp
qed

lemma binade_mono:
  fixes y1 y2 :: real
  assumes "0 \<le> y1" "y1 \<le> y2"
  shows "nat (bitlen \<lfloor>y1\<rfloor> - 53) \<le> nat (bitlen \<lfloor>y2\<rfloor> - 53)"
proof -
  have "\<lfloor>y1\<rfloor> \<le> \<lfloor>y2\<rfloor>" using assms(2) by (rule floor_mono)
  then have "bitlen \<lfloor>y1\<rfloor> \<le> bitlen \<lfloor>y2\<rfloor>"
    unfolding bitlen_def by (simp add: floorlog_mono)
  then show ?thesis by linarith
qed

lemma scaled_double_upper:
  assumes "0 \<le> y" shows "scaled_double y \<le> 2 ^ (53 + nat (bitlen \<lfloor>y\<rfloor> - 53))"
proof -
  define k where "k = nat (bitlen \<lfloor>y\<rfloor> - 53)"
  have "y < 2 ^ (53 + k)" unfolding k_def by (rule binade_upper [OF assms])
  then have "y / 2 ^ k \<le> 2 ^ 53" by (simp add: power_add field_simps)
  then have "y / 2 ^ k \<le> real_of_int (2 ^ 53)" by simp
  then have "round_half_even (y / 2 ^ k) \<le> 2 ^ 53" by (rule round_half_even_le)
  then have "real_of_int (round_half_even (y / 2 ^ k)) \<le> real_of_int (2 ^ 53)"
    by (simp only: of_int_le_iff)
  then have "real_of_int (round_half_even (y / 2 ^ k)) * 2 ^ k \<le> 2 ^ 53 * 2 ^ k"
    by (simp add: mult_right_mono)
  then show ?thesis unfolding scaled_double_def Let_def k_def [symmetric] by (simp add: power_add)
qed

lemma scaled_double_lower:
  assumes "0 \<le> y" "0 < nat (bitlen \<lfloor>y\<rfloor> - 53)"
  shows "2 ^ (52 + nat (bitlen \<lfloor>y\<rfloor> - 53)) \<le> scaled_double y"
proof -
  define k where "k = nat (bitlen \<lfloor>y\<rfloor> - 53)"
  have "2 ^ (52 + k) \<le> y" unfolding k_def by (rule binade_lower [OF assms])
  then have "2 ^ 52 \<le> y / 2 ^ k" by (simp add: power_add field_simps)
  then have "real_of_int (2 ^ 52) \<le> y / 2 ^ k" by simp
  then have "2 ^ 52 \<le> round_half_even (y / 2 ^ k)" by (rule round_half_even_ge)
  then have "real_of_int (2 ^ 52) \<le> real_of_int (round_half_even (y / 2 ^ k))"
    by (simp only: of_int_le_iff)
  then have "2 ^ 52 * 2 ^ k \<le> real_of_int (round_half_even (y / 2 ^ k)) * 2 ^ k"
    by (simp add: mult_right_mono)
  then show ?thesis unfolding scaled_double_def Let_def k_def [symmetric] by (simp add: power_add)
qed

lemma scaled_double_mono:
  assumes "0 \<le> y1" "y1 \<le> y2"
  shows "scaled_double y1 \<le> scaled_double y2"
proof -
  define k1 where "k1 = nat (bitlen \<lfloor>y1\<rfloor> - 53)"
  define k2 where "k2 = nat (bitlen \<lfloor>y2\<rfloor> - 53)"
  have y2: "0 \<le> y2" using assms by simp
  have le: "k1 \<le> k2" unfolding k1_def k2_def by (rule binade_mono [OF assms])
  show ?thesis
  proof (cases "k1 = k2")
    case True
    have "y1 / 2 ^ k2 \<le> y2 / 2 ^ k2" using assms(2) by (simp add: divide_right_mono)
    then have "round_half_even (y1 / 2 ^ k2) \<le> round_half_even (y2 / 2 ^ k2)"
      by (rule round_half_even_mono)
    then have "real_of_int (round_half_even (y1 / 2 ^ k2)) \<le> real_of_int (round_half_even (y2 / 2 ^ k2))"
      by (simp only: of_int_le_iff)
    then have "real_of_int (round_half_even (y1 / 2 ^ k2)) * 2 ^ k2
                 \<le> real_of_int (round_half_even (y2 / 2 ^ k2)) * 2 ^ k2"
      by (simp add: mult_right_mono)
    then show ?thesis
      unfolding scaled_double_def Let_def k1_def [symmetric] k2_def [symmetric] True .
  next
    case False
    with le have lt: "k1 < k2" by simp
    then have k2pos: "0 < nat (bitlen \<lfloor>y2\<rfloor> - 53)" unfolding k2_def by simp
    have "scaled_double y1 \<le> 2 ^ (53 + k1)"
      unfolding k1_def by (rule scaled_double_upper [OF assms(1)])
    also have "(2::real) ^ (53 + k1) \<le> 2 ^ (52 + k2)"
      using lt by (intro power_increasing) auto
    also have "\<dots> \<le> scaled_double y2"
      unfolding k2_def by (rule scaled_double_lower [OF y2 k2pos])
    finally show ?thesis .
  qed
qed

lemma scaled_double_0 [simp]: "scaled_double 0 = 0"
  by (simp add: scaled_double_def)

lemma double_of_scaled: "0 \<le> x \<Longrightarrow> double_of x = scaled_double (x * 2 ^ 1074) / 2 ^ 1074"
  by (cases "x = 0") (simp_all add: double_of_def)

lemma double_of_mono_nonneg:
  assumes "0 \<le> x" "x \<le> x'" shows "double_of x \<le> double_of x'"
proof -
  have "scaled_double (x * 2 ^ 1074) \<le> scaled_double (x' * 2 ^ 1074)"
    using assms by (intro scaled_double_mono) simp_all
  then show ?thesis
    using assms by (simp add: double_of_scaled divide_right_mono)
qed

lemma double_of_nonneg: "0 \<le> x \<Longrightarrow> 0 \<le> double_of x"
  using double_of_mono_nonneg [of 0 x] by simp

lemma double_of_mono:
  assumes "x \<le> x'" shows "double_of x \<le> double_of x'"
proof -
  consider "0 \<le> x" | "x < 0" "0 \<le> x'" | "x < 0" "x' < 0" by linarith
  then show ?thesis
  proof cases
    case 1 then show ?thesis using assms by (rule double_of_mono_nonneg)
  next
    case 2
    have "double_of (- x) \<ge> 0" using 2 by (intro double_of_nonneg) simp
    then have "double_of x \<le> 0" by (simp add: double_of_minus)
    also have "0 \<le> double_of x'" using 2 by (intro double_of_nonneg)
    finally show ?thesis .
  next
    case 3
    have "double_of (- x') \<le> double_of (- x)"
      using 3 assms by (intro double_of_mono_nonneg) simp_all
    then show ?thesis by (simp add: double_of_minus)
  qed
qed

text \<open>
  The double of a positive number of a known binade: \<open>a\<close> is the number of binary places of
  its 53-bit significand.
\<close>

lemma double_of_eval:
  assumes "a \<le> 1074" "2 ^ 52 \<le> x * 2 ^ a" "x * 2 ^ a < 2 ^ 53"
  shows "double_of x = of_int (round_half_even (x * 2 ^ a)) / 2 ^ a"
proof -
  have xpos: "0 < x"
  proof (rule ccontr)
    assume "\<not> 0 < x"
    then have "x * 2 ^ a \<le> 0" by (simp add: mult_le_0_iff)
    with assms(2) show False by (smt (verit) zero_less_power)
  qed
  define k where "k = 1074 - a"
  have ka: "k + a = 1074" using assms(1) by (simp add: k_def)
  define y where "y = x * 2 ^ 1074"
  have y: "y = x * 2 ^ a * 2 ^ k"
    unfolding y_def by (simp add: ka [symmetric] power_add mult.commute mult.left_commute)
  have lo: "2 ^ (52 + k) \<le> y" unfolding y power_add using assms(2) by (simp add: mult_right_mono)
  have hi: "y < 2 ^ (53 + k)" unfolding y power_add using assms(3) by (simp add: mult_strict_right_mono)
  have "real_of_int (2 ^ (52 + k)) \<le> y" using lo by simp
  then have flo: "2 ^ (52 + k) \<le> \<lfloor>y\<rfloor>" by (simp only: le_floor_iff)
  have "y < real_of_int (2 ^ (53 + k))" using hi by simp
  then have fhi: "\<lfloor>y\<rfloor> < 2 ^ (53 + k)" by (simp only: floor_less_iff)
  have "bitlen \<lfloor>y\<rfloor> = 53 + int k"
  proof (rule antisym)
    show "bitlen \<lfloor>y\<rfloor> \<le> 53 + int k"
      using fhi by (simp add: bitlen_le_iff_power nat_add_distrib)
    show "53 + int k \<le> bitlen \<lfloor>y\<rfloor>"
      using flo by (simp add: bitlen_ge_iff_power nat_add_distrib)
  qed
  then have kk: "nat (bitlen \<lfloor>y\<rfloor> - 53) = k" by simp
  have "double_of x = scaled_double y / 2 ^ 1074"
    unfolding y_def using xpos by (intro double_of_scaled) simp
  also have "scaled_double y = of_int (round_half_even (y / 2 ^ k)) * 2 ^ k"
    unfolding scaled_double_def Let_def kk ..
  also have "y / 2 ^ k = x * 2 ^ a" unfolding y by simp
  also have "of_int (round_half_even (x * 2 ^ a)) * 2 ^ k / 2 ^ 1074
               = of_int (round_half_even (x * 2 ^ a)) / (2 ^ a :: real)"
    unfolding ka [symmetric] power_add by simp
  finally show ?thesis .
qed

text \<open>The distance of the double from the number.\<close>

lemma scaled_double_error:
  assumes "0 \<le> y"
  shows "\<bar>scaled_double y - y\<bar> \<le> y / 2 ^ 53 + 1 / 2"
proof -
  define k where "k = nat (bitlen \<lfloor>y\<rfloor> - 53)"
  define z where "z = y / 2 ^ k"
  have y: "y = z * 2 ^ k" by (simp add: z_def)
  have sd: "scaled_double y = of_int (round_half_even z) * 2 ^ k"
    by (simp add: scaled_double_def Let_def k_def z_def)
  have "\<bar>of_int (round_half_even z) - z\<bar> \<le> 1 / 2"
    using round_half_even_bounds [of z] by linarith
  then have "\<bar>of_int (round_half_even z) - z\<bar> * 2 ^ k \<le> 1 / 2 * 2 ^ k"
    by (intro mult_right_mono) simp_all
  moreover have "scaled_double y - y = (of_int (round_half_even z) - z) * 2 ^ k"
    unfolding sd by (simp add: y [symmetric] algebra_simps z_def)
  ultimately have e: "\<bar>scaled_double y - y\<bar> \<le> 2 ^ k / 2"
    by (simp add: abs_mult)
  show ?thesis
  proof (cases "k = 0")
    case True
    with e assms show ?thesis by simp
  next
    case False
    then have "0 < nat (bitlen \<lfloor>y\<rfloor> - 53)" by (simp add: k_def)
    from binade_lower [OF assms this] have "2 ^ (52 + k) \<le> y" by (simp add: k_def)
    then have "2 ^ k * 2 ^ 52 \<le> y" by (simp add: power_add mult.commute)
    then have "2 ^ k / 2 \<le> y / 2 ^ 53" by (simp add: field_simps)
    with e show ?thesis by linarith
  qed
qed

lemma double_of_error_nonneg:
  assumes "0 \<le> x"
  shows "\<bar>double_of x - x\<bar> \<le> x / 2 ^ 53 + 1 / 2 ^ 1075"
proof -
  define c :: real where "c = 2 ^ 1074"
  define y where "y = x * c"
  have c0: "0 < c" by (simp add: c_def)
  have y0: "0 \<le> y" using assms c0 by (simp add: y_def)
  have x: "y / c = x" using c0 by (simp add: y_def)
  have d: "double_of x = scaled_double y / c"
    unfolding y_def c_def by (rule double_of_scaled [OF assms])
  have "double_of x - x = scaled_double y / c - y / c"
    by (simp only: d x)
  also have "\<dots> = (scaled_double y - y) / c"
    by (simp add: diff_divide_distrib)
  finally have "\<bar>double_of x - x\<bar> = \<bar>scaled_double y - y\<bar> / c"
    using c0 by (simp add: abs_divide)
  also have "\<dots> \<le> (y / 2 ^ 53 + 1 / 2) / c"
    using scaled_double_error [OF y0] c0 by (intro divide_right_mono) simp_all
  also have "\<dots> = y / c / 2 ^ 53 + 1 / 2 / c"
    by (simp add: add_divide_distrib)
  also have "\<dots> = x / 2 ^ 53 + 1 / 2 ^ 1075"
    unfolding x by (simp add: c_def)
  finally show ?thesis .
qed

lemma double_of_error:
  "\<bar>double_of x - x\<bar> \<le> \<bar>x\<bar> / 2 ^ 53 + 1 / 2 ^ 1075"
proof (cases "0 \<le> x")
  case True
  then show ?thesis using double_of_error_nonneg [of x] by simp
next
  case False
  then have "0 \<le> - x" by simp
  from double_of_error_nonneg [OF this] have "\<bar>- double_of x + x\<bar> \<le> - x / 2 ^ 53 + 1 / 2 ^ 1075"
    by (simp add: double_of_minus)
  moreover have "\<bar>- double_of x + x\<bar> = \<bar>double_of x - x\<bar>" by linarith
  ultimately show ?thesis using False by simp
qed

text \<open>The error of a rounding, for a number of magnitude at most \<open>B\<close>, and of the operations.\<close>

lemma double_of_close:
  assumes "\<bar>x\<bar> \<le> B" "1 \<le> B"
  shows "\<bar>double_of x - x\<bar> \<le> B / 2 ^ 52"
proof -
  have "(1::real) / 2 ^ 1075 \<le> 1 / 2 ^ 53"
    by (intro divide_left_mono power_increasing) simp_all
  also have "\<dots> \<le> B / 2 ^ 53" using assms(2) by (simp add: divide_right_mono)
  finally have t: "1 / 2 ^ 1075 \<le> B / 2 ^ 53" .
  have "\<bar>x\<bar> / 2 ^ 53 \<le> B / 2 ^ 53" using assms(1) by (simp add: divide_right_mono)
  with t double_of_error [of x] have "\<bar>double_of x - x\<bar> \<le> B / 2 ^ 53 + B / 2 ^ 53"
    by linarith
  also have "B / 2 ^ 53 + B / 2 ^ 53 = B / 2 ^ 52" by simp
  finally show ?thesis .
qed

lemma product_close:
  fixes a b A B :: real
  assumes "\<bar>a - A\<bar> \<le> ea" "\<bar>b - B\<bar> \<le> eb" "\<bar>A\<bar> \<le> MA" "\<bar>b\<bar> \<le> Mb"
  shows "\<bar>a * b - A * B\<bar> \<le> ea * Mb + MA * eb"
proof -
  have "a * b - A * B = (a - A) * b + A * (b - B)" by (simp add: algebra_simps)
  then have "\<bar>a * b - A * B\<bar> \<le> \<bar>a - A\<bar> * \<bar>b\<bar> + \<bar>A\<bar> * \<bar>b - B\<bar>"
    by (metis abs_mult abs_triangle_ineq)
  also have "\<dots> \<le> ea * Mb + MA * eb"
    using assms by (intro add_mono mult_mono) (auto intro: order_trans [OF abs_ge_zero])
  finally show ?thesis .
qed


lemma double_of_literal_close:
  assumes "\<bar>c\<bar> \<le> M" "1 \<le> M"
  shows "\<bar>double_of c - c\<bar> \<le> M / 2 ^ 52" "\<bar>double_of c\<bar> \<le> M + M / 2 ^ 52"
proof -
  show e: "\<bar>double_of c - c\<bar> \<le> M / 2 ^ 52" using assms by (rule double_of_close)
  then show "\<bar>double_of c\<bar> \<le> M + M / 2 ^ 52" using assms(1) by linarith
qed

lemma double_times_close:
  assumes "\<bar>a - A\<bar> \<le> ea" "\<bar>b - B\<bar> \<le> eb" "\<bar>A\<bar> \<le> MA" "\<bar>a\<bar> \<le> Ma" "\<bar>b\<bar> \<le> Mb"
    and "1 \<le> Ma * Mb"
  shows "\<bar>double_times a b - A * B\<bar> \<le> Ma * Mb / 2 ^ 52 + (ea * Mb + MA * eb)"
proof -
  have "\<bar>a * b\<bar> \<le> Ma * Mb"
    unfolding abs_mult using assms(4,5) by (intro mult_mono) simp_all
  then have "\<bar>double_of (a * b) - a * b\<bar> \<le> Ma * Mb / 2 ^ 52"
    using assms(6) by (rule double_of_close)
  moreover have "\<bar>a * b - A * B\<bar> \<le> ea * Mb + MA * eb"
    using assms(1,2,3,5) by (rule product_close)
  ultimately show ?thesis unfolding double_times_def by linarith
qed

lemma double_plus_close:
  assumes "\<bar>a - A\<bar> \<le> ea" "\<bar>b - B\<bar> \<le> eb" "\<bar>a + b\<bar> \<le> M" "1 \<le> M"
  shows "\<bar>double_plus a b - (A + B)\<bar> \<le> M / 2 ^ 52 + (ea + eb)"
proof -
  have "\<bar>double_of (a + b) - (a + b)\<bar> \<le> M / 2 ^ 52"
    using assms(3,4) by (rule double_of_close)
  then show ?thesis unfolding double_plus_def using assms(1,2) by linarith
qed

lemma double_minus_close:
  assumes "\<bar>a - A\<bar> \<le> ea" "\<bar>b - B\<bar> \<le> eb" "\<bar>a - b\<bar> \<le> M" "1 \<le> M"
  shows "\<bar>double_minus a b - (A - B)\<bar> \<le> M / 2 ^ 52 + (ea + eb)"
proof -
  have "\<bar>double_of (a - b) - (a - b)\<bar> \<le> M / 2 ^ 52"
    using assms(3,4) by (rule double_of_close)
  then show ?thesis unfolding double_minus_def using assms(1,2) by linarith
qed

subsection \<open>Numbers that are doubles\<close>

text \<open>An integer of magnitude below \<open>2 ^ 53\<close>, divided by a power of two, is a double.\<close>

lemma double_of_dyadic_pos:
  fixes k :: int
  assumes k: "0 < k" "k < 2 ^ 53" and i: "i \<le> 1000"
  shows "double_of (of_int k / 2 ^ i) = of_int k / 2 ^ i"
proof -
  define b where "b = nat (bitlen k)"
  have bb: "2 ^ nat (bitlen k - 1) \<le> k \<and> k < 2 ^ nat (bitlen k)"
    using bitlen_bounds [OF k(1)] .
  have hi: "k < 2 ^ b"
    using bb by (simp add: b_def)
  have b1: "1 \<le> b"
  proof (rule ccontr)
    assume "\<not> 1 \<le> b"
    then have "b = 0" by simp
    with hi k(1) show False by simp
  qed
  have lo: "2 ^ (b - 1) \<le> k"
    using bb b1 by (simp add: b_def nat_diff_distrib)
  have b53: "b \<le> 53"
  proof (rule ccontr)
    assume "\<not> b \<le> 53"
    then have "53 \<le> b - 1" by simp
    then have "(2::int) ^ 53 \<le> 2 ^ (b - 1)"
      by (rule power_increasing) simp
    with lo k(2) show False by linarith
  qed
  define j where "j = 53 - b"
  have bj: "b - 1 + j = 52" "b + j = 53"
    using b1 b53 by (simp_all add: j_def)
  have "(2::int) ^ (b - 1) * 2 ^ j \<le> k * 2 ^ j"
    using lo by simp
  then have l: "(2::int) ^ 52 \<le> k * 2 ^ j"
    unfolding power_add [symmetric] bj .
  have "k * 2 ^ j < (2::int) ^ b * 2 ^ j"
    using hi by simp
  then have u: "k * 2 ^ j < (2::int) ^ 53"
    unfolding power_add [symmetric] bj .
  have s: "of_int k / 2 ^ i * 2 ^ (j + i) = (of_int (k * 2 ^ j) :: real)"
    by (simp add: power_add)
  have l': "(2::real) ^ 52 \<le> of_int k / 2 ^ i * 2 ^ (j + i)"
    unfolding s using l by (metis of_int_le_iff of_int_numeral of_int_power)
  have u': "of_int k / 2 ^ i * 2 ^ (j + i) < (2::real) ^ 53"
    unfolding s using u by (metis of_int_less_iff of_int_numeral of_int_power)
  have a: "j + i \<le> 1074"
    using i by (simp add: j_def)
  have "double_of (of_int k / 2 ^ i)
          = of_int (round_half_even (of_int k / 2 ^ i * 2 ^ (j + i))) / 2 ^ (j + i)"
    by (rule double_of_eval [OF a l' u'])
  also have "\<dots> = of_int (k * 2 ^ j) / 2 ^ (j + i)"
    by (simp only: s round_half_even_of_int)
  also have "\<dots> = of_int k / 2 ^ i"
    by (simp add: power_add)
  finally show ?thesis .
qed

lemma double_of_dyadic:
  fixes k :: int
  assumes k: "\<bar>k\<bar> < 2 ^ 53" and i: "i \<le> 1000"
  shows "double_of (of_int k / 2 ^ i) = of_int k / 2 ^ i"
proof -
  consider "k = 0" | "0 < k" | "k < 0" by linarith
  then show ?thesis
  proof cases
    case 1 then show ?thesis by simp
  next
    case 2 then show ?thesis using k i by (simp add: double_of_dyadic_pos)
  next
    case 3
    then have "double_of (of_int (- k) / 2 ^ i) = of_int (- k) / 2 ^ i"
      using k i by (intro double_of_dyadic_pos) simp_all
    then have "double_of (- (of_int k / 2 ^ i)) = - (of_int k / 2 ^ i)"
      by simp
    then show ?thesis
      unfolding double_of_minus by simp
  qed
qed

lemma double_of_int: "\<bar>k\<bar> < 2 ^ 53 \<Longrightarrow> double_of (of_int k) = of_int k"
  using double_of_dyadic [of k 0] by simp

lemma double_of_half_int: "\<bar>k\<bar> < 2 ^ 53 \<Longrightarrow> double_of (of_int k / 2) = of_int k / 2"
  using double_of_dyadic [of k 1] by simp

subsection \<open>C1: calories burned\<close>

lemma double_of_2: "double_of 2 = 2"
  by (subst double_of_eval [where a = 51]) (simp_all add: round_half_even_def)

lemma MET_at_least_2: "MET e i = Some m \<Longrightarrow> 2 \<le> m"
  by (auto simp: MET_def MET_VALUES_def split: if_splits option.splits)

lemma MET_double_positive:
  assumes "MET e i = Some m" shows "0 < double_of m"
proof -
  have "double_of 2 \<le> double_of m"
    using MET_at_least_2 [OF assms] by (rule double_of_mono)
  then show ?thesis by (simp add: double_of_2)
qed

lemma MET_at_most_16: "MET e i = Some m \<Longrightarrow> m \<le> 16"
  by (auto simp: MET_def MET_VALUES_def split: if_splits option.splits)

lemma calories_close:
  assumes m: "2 \<le> m" "m \<le> 16" and w: "20 \<le> w" "w \<le> 300" and d: "1 \<le> d" "d \<le> 480"
  shows "\<bar>double_times (double_times (double_of m) w) (double_divide d 60)
           - m * w * (d / 60)\<bar> \<le> 1 / 10 ^ 9"
proof -
  define dm where "dm = double_of m"
  define a where "a = double_times dm w"
  define t where "t = double_divide d 60"
  have dm: "\<bar>dm - m\<bar> \<le> 16 / 2 ^ 52" "\<bar>dm\<bar> \<le> 16 + 16 / 2 ^ 52"
    unfolding dm_def using m by (intro double_of_literal_close; simp)+
  have dm17: "\<bar>dm\<bar> \<le> 17" using dm(2) by simp
  have a: "\<bar>a - m * w\<bar> \<le> 17 * 300 / 2 ^ 52 + (16 / 2 ^ 52 * 300 + 16 * 0)"
    unfolding a_def using dm(1) _ _ dm17
    by (rule double_times_close [where B = w]) (use m w in simp_all)
  have mw: "\<bar>m * w\<bar> \<le> 4800"
  proof -
    have "\<bar>m * w\<bar> \<le> 16 * 300" unfolding abs_mult using m w by (intro mult_mono) simp_all
    then show ?thesis by simp
  qed
  have "\<bar>a - m * w\<bar> \<le> 1" by (rule order_trans [OF a]) simp
  then have a4801: "\<bar>a\<bar> \<le> 4801" using mw by linarith
  have dq: "\<bar>d / 60\<bar> \<le> 8" using d by simp
  have t: "\<bar>t - d / 60\<bar> \<le> 8 / 2 ^ 52"
    unfolding t_def double_divide_def using dq by (rule double_of_close) simp
  have "\<bar>t - d / 60\<bar> \<le> 1" by (rule order_trans [OF t]) simp
  then have t9: "\<bar>t\<bar> \<le> 9" using dq by linarith
  have "\<bar>double_times a t - m * w * (d / 60)\<bar>
          \<le> 4801 * 9 / 2 ^ 52 + ((17 * 300 / 2 ^ 52 + (16 / 2 ^ 52 * 300 + 16 * 0)) * 9
                  + 4800 * (8 / 2 ^ 52))"
    using a t mw a4801 t9 by (rule double_times_close) simp
  then have "\<bar>double_times a t - m * w * (d / 60)\<bar> \<le> 1 / 10 ^ 9"
    by (rule order_trans) simp
  then show ?thesis unfolding a_def t_def dm_def .
qed

text \<open>The computations of the examples, operation by operation.\<close>

lemma tie_calories_1: "double_of (83 / 10) = 2336242306698445 / 281474976710656"
  by (subst double_of_eval [where a = 49]) (simp_all add: round_half_even_def)

lemma tie_calories_2: "double_times (2336242306698445 / 281474976710656) 75 = 1245 / 2"
  unfolding double_times_def
  by (subst double_of_eval [where a = 43]) (simp_all add: round_half_even_def)

lemma tie_calories_3: "double_divide 44 60 = 6605279453476727 / 9007199254740992"
  unfolding double_divide_def
  by (subst double_of_eval [where a = 53]) (simp_all add: round_half_even_def)

lemma tie_calories_4: "double_times (1245 / 2) (6605279453476727 / 9007199254740992) = 8030832929275903 / 17592186044416"
  unfolding double_times_def
  by (subst double_of_eval [where a = 44]) (simp_all add: round_half_even_def)

lemma example_calories_1: "double_of (49 / 5) = 2758454771764429 / 281474976710656"
  by (subst double_of_eval [where a = 49]) (simp_all add: round_half_even_def)

lemma example_calories_2: "double_times (2758454771764429 / 281474976710656) 80 = 784"
  unfolding double_times_def
  by (subst double_of_eval [where a = 43]) (simp_all add: round_half_even_def)

lemma example_calories_3: "double_divide 30 60 = 1 / 2"
  unfolding double_divide_def
  by (subst double_of_eval [where a = 53]) (simp_all add: round_half_even_def)

lemma example_calories_4: "double_times 784 (1 / 2) = 392"
  unfolding double_times_def
  by (subst double_of_eval [where a = 44]) (simp_all add: round_half_even_def)

text \<open>
  C1, the claim as stated fails in two ways. Running at 5 mph (MET 8.3) for 44 minutes at
  75 kg: the exact product is 456.5, which rounds to 457, but the product in doubles is
  456.49999999999994 and the method stores 456. And the pair (running, constructor) is not
  in the table, yet the lookup finds the inherited function, which is truthy: the method
  does not reject, it resolves with \<^verbatim>\<open>NaN\<close>.
\<close>

theorem calculateCaloriesBurned_tie_counterexample:
  "MET ''running'' ''5 mph'' = Some (83 / 10)
   \<and> calculateCaloriesBurned inherited_constructor users_75 workout_running_5mph_44
       = Inr (Finite 456)
   \<and> Math_round (83 / 10 * 75 * (44 / 60)) = 457
   \<and> MET ''running'' ''constructor'' = None
   \<and> calculateCaloriesBurned inherited_constructor users_75 workout_running_constructor
       = Inr NaN"
proof -
  have a: "MET ''running'' ''5 mph'' = Some (83 / 10)"
    by (simp add: MET_def MET_VALUES_def)
  have b: "calculateCaloriesBurned inherited_constructor users_75 workout_running_5mph_44
       = Inr (Finite 456)"
    by (simp add: calculateCaloriesBurned_def lookup_MET_def a users_75_def
        workout_running_5mph_44_def tie_calories_1 tie_calories_2 tie_calories_3
        tie_calories_4 Math_round_def)
  have c: "Math_round (83 / 10 * 75 * (44 / 60)) = 457"
    by (simp add: Math_round_def)
  have d: "MET ''running'' ''constructor'' = None"
    by (simp add: MET_def MET_VALUES_def)
  have e: "calculateCaloriesBurned inherited_constructor users_75 workout_running_constructor
       = Inr NaN"
    by (simp add: calculateCaloriesBurned_def lookup_MET_def d users_75_def
        workout_running_constructor_def inherited_constructor_def MET_VALUES_def)
  show ?thesis using a b c d e by blast
qed


text \<open>
  C1, amended: for a workout of a known user, with the weight and the duration in the ranges
  of the schemas, whose exercise type and intensity are in the MET table,
  \<^verbatim>\<open>calculateCaloriesBurned\<close> resolves with Math.round of MET * weight * (duration / 60)
  evaluated in doubles from left to right: the integer nearest to that double, a tie going
  up. When the pair is not in the table and the lookup finds nothing on the prototype chain
  either, it rejects with the invalid-exercise error. Running at 6 mph for 30 minutes at
  80 kg gives 392; running at 5 mph for 44 minutes at 75 kg gives 456.
\<close>

theorem calculateCaloriesBurned_MET:
  "(users (w_user w) = Some u \<and> 20 \<le> weight u \<and> weight u \<le> 300
      \<and> 1 \<le> w_duration w \<and> w_duration w \<le> 480 \<longrightarrow>
      (\<forall>m. MET (exerciseType w) (intensity w) = Some m \<longrightarrow>
          calculateCaloriesBurned inherited users w
            = Inr (Finite (Math_round
                (double_times (double_times (double_of m) (weight u))
                   (double_divide (w_duration w) 60))))
          \<and> (\<exists>n::int.
                calculateCaloriesBurned inherited users w = Inr (Finite (of_int n))
                \<and> of_int n - 1 / 2
                    \<le> double_times (double_times (double_of m) (weight u))
                         (double_divide (w_duration w) 60)
                \<and> double_times (double_times (double_of m) (weight u))
                         (double_divide (w_duration w) 60) < of_int n + 1 / 2
                \<and> \<bar>of_int n - m * weight u * (w_duration w / 60)\<bar> \<le> 1 / 2 + 1 / 10 ^ 9))
      \<and> (MET (exerciseType w) (intensity w) = None
           \<and> inherited (exerciseType w) (intensity w) = Falsy \<longrightarrow>
          calculateCaloriesBurned inherited users w = Inl InvalidExercise))
   \<and> calculateCaloriesBurned inherited users_80 workout_running_6mph_30 = Inr (Finite 392)
   \<and> calculateCaloriesBurned inherited users_75 workout_running_5mph_44 = Inr (Finite 456)"
proof (intro conjI impI allI)
  fix m
  assume u: "users (w_user w) = Some u \<and> 20 \<le> weight u \<and> weight u \<le> 300
      \<and> 1 \<le> w_duration w \<and> w_duration w \<le> 480"
    and m: "MET (exerciseType w) (intensity w) = Some m"
  let ?P = "double_times (double_times (double_of m) (weight u))
              (double_divide (w_duration w) 60)"
  have nz: "double_of m \<noteq> 0" using MET_double_positive [OF m] by simp
  show r: "calculateCaloriesBurned inherited users w = Inr (Finite (Math_round ?P))"
    using u m nz by (simp add: calculateCaloriesBurned_def lookup_MET_def)
  have "Math_round ?P = of_int \<lfloor>?P + 1 / 2\<rfloor>" by (simp add: Math_round_def)
  moreover have "of_int \<lfloor>?P + 1 / 2\<rfloor> - 1 / 2 \<le> ?P" "?P < of_int \<lfloor>?P + 1 / 2\<rfloor> + 1 / 2"
    by linarith+
  moreover have "\<bar>?P - m * weight u * (w_duration w / 60)\<bar> \<le> 1 / 10 ^ 9"
    using MET_at_least_2 [OF m] MET_at_most_16 [OF m] u by (intro calories_close) simp_all
  then have "\<bar>of_int \<lfloor>?P + 1 / 2\<rfloor> - m * weight u * (w_duration w / 60)\<bar>
               \<le> 1 / 2 + 1 / 10 ^ 9"
    by linarith
  ultimately show "\<exists>n::int.
      calculateCaloriesBurned inherited users w = Inr (Finite (of_int n))
      \<and> of_int n - 1 / 2 \<le> ?P \<and> ?P < of_int n + 1 / 2
      \<and> \<bar>of_int n - m * weight u * (w_duration w / 60)\<bar> \<le> 1 / 2 + 1 / 10 ^ 9"
    using r by (intro exI [of _ "\<lfloor>?P + 1 / 2\<rfloor>"]) simp
next
  assume "users (w_user w) = Some u \<and> 20 \<le> weight u \<and> weight u \<le> 300
      \<and> 1 \<le> w_duration w \<and> w_duration w \<le> 480"
    and "MET (exerciseType w) (intensity w) = None
           \<and> inherited (exerciseType w) (intensity w) = Falsy"
  then show "calculateCaloriesBurned inherited users w = Inl InvalidExercise"
    by (simp add: calculateCaloriesBurned_def lookup_MET_def)
next
  have "MET ''running'' ''6 mph'' = Some (98 / 10)"
    by (simp add: MET_def MET_VALUES_def)
  then show "calculateCaloriesBurned inherited users_80 workout_running_6mph_30
               = Inr (Finite 392)"
    by (simp add: calculateCaloriesBurned_def lookup_MET_def users_80_def
        workout_running_6mph_30_def example_calories_1 example_calories_2
        example_calories_3 example_calories_4 Math_round_def)
next
  have "MET ''running'' ''5 mph'' = Some (83 / 10)"
    by (simp add: MET_def MET_VALUES_def)
  then show "calculateCaloriesBurned inherited users_75 workout_running_5mph_44
               = Inr (Finite 456)"
    by (simp add: calculateCaloriesBurned_def lookup_MET_def users_75_def
        workout_running_5mph_44_def tie_calories_1 tie_calories_2 tie_calories_3
        tie_calories_4 Math_round_def)
qed

theorem calculateCaloriesBurned_MET_witness:
  "calculateCaloriesBurned inherited_constructor users_80 workout_running_6mph_30
     = Inr (Finite 392)
   \<and> calculateCaloriesBurned inherited_constructor users_80 workout_running_sprint
     = Inl InvalidExercise"
proof -
  let ?u = "\<lparr>gender = ''female'', age = 30, weight = 80, height = 170,
             activityLevel = ''moderately_active'', targetWeight = None\<rparr>"
  have h1: "users_80 (w_user workout_running_6mph_30) = Some ?u \<and> 20 \<le> weight ?u
      \<and> weight ?u \<le> 300 \<and> 1 \<le> w_duration workout_running_6mph_30
      \<and> w_duration workout_running_6mph_30 \<le> 480"
    by (simp add: users_80_def workout_running_6mph_30_def)
  have h2: "users_80 (w_user workout_running_sprint) = Some ?u \<and> 20 \<le> weight ?u
      \<and> weight ?u \<le> 300 \<and> 1 \<le> w_duration workout_running_sprint
      \<and> w_duration workout_running_sprint \<le> 480"
    by (simp add: users_80_def workout_running_sprint_def)
  have m1: "MET (exerciseType workout_running_6mph_30) (intensity workout_running_6mph_30)
              = Some (98 / 10)"
    by (simp add: MET_def MET_VALUES_def workout_running_6mph_30_def)
  have m2: "MET (exerciseType workout_running_sprint) (intensity workout_running_sprint) = None
      \<and> inherited_constructor (exerciseType workout_running_sprint)
           (intensity workout_running_sprint) = Falsy"
    by (simp add: MET_def MET_VALUES_def workout_running_sprint_def inherited_constructor_def)
  have v: "Math_round (double_times (double_times (double_of (98 / 10)) (weight ?u))
             (double_divide (w_duration workout_running_6mph_30) 60)) = 392"
    by (simp add: workout_running_6mph_30_def example_calories_1 example_calories_2
        example_calories_3 example_calories_4 Math_round_def)
  from calculateCaloriesBurned_MET
         [of users_80 workout_running_6mph_30 ?u inherited_constructor] h1 m1
  have "calculateCaloriesBurned inherited_constructor users_80 workout_running_6mph_30
     = Inr (Finite (Math_round (double_times (double_times (double_of (98 / 10)) (weight ?u))
             (double_divide (w_duration workout_running_6mph_30) 60))))"
    by blast
  then have a: "calculateCaloriesBurned inherited_constructor users_80 workout_running_6mph_30
     = Inr (Finite 392)"
    unfolding v .
  from calculateCaloriesBurned_MET
         [of users_80 workout_running_sprint ?u inherited_constructor] h2 m2
  have b: "calculateCaloriesBurned inherited_constructor users_80 workout_running_sprint
     = Inl InvalidExercise"
    by blast
  show ?thesis using a b by simp
qed

subsection \<open>C2: basal metabolic rate\<close>

text \<open>The computations of the examples, operation by operation.\<close>

lemma bmr_male_80_1: "double_of (44181 / 500) = 3108961486513373 / 35184372088832"
  by (subst double_of_eval [where a = 46]) (simp_all add: round_half_even_def)

lemma bmr_male_80_2: "double_of (13397 / 1000) = 7541840525985317 / 562949953421312"
  by (subst double_of_eval [where a = 49]) (simp_all add: round_half_even_def)

lemma bmr_male_80_3: "double_of (4799 / 1000) = 5403193652937753 / 1125899906842624"
  by (subst double_of_eval [where a = 50]) (simp_all add: round_half_even_def)

lemma bmr_male_80_4: "double_of (5677 / 1000) = 798966721393197 / 140737488355328"
  by (subst double_of_eval [where a = 50]) (simp_all add: round_half_even_def)

lemma bmr_male_80_5: "double_times (7541840525985317 / 562949953421312) 80 = 4713650328740823 / 4398046511104"
  unfolding double_times_def
  by (subst double_of_eval [where a = 42]) (simp_all add: round_half_even_def)

lemma bmr_male_80_6: "double_plus (3108961486513373 / 35184372088832) (4713650328740823 / 4398046511104) = 5102270514554995 / 4398046511104"
  unfolding double_plus_def
  by (subst double_of_eval [where a = 42]) (simp_all add: round_half_even_def)

lemma bmr_male_80_7: "double_times (5403193652937753 / 1125899906842624) 180 = 7598241074443715 / 8796093022208"
  unfolding double_times_def
  by (subst double_of_eval [where a = 43]) (simp_all add: round_half_even_def)

lemma bmr_male_80_8: "double_plus (5102270514554995 / 4398046511104) (7598241074443715 / 8796093022208) = 2225347762944213 / 1099511627776"
  unfolding double_plus_def
  by (subst double_of_eval [where a = 42]) (simp_all add: round_half_even_def)

lemma bmr_male_80_9: "double_times (798966721393197 / 140737488355328) 30 = 2996125205224489 / 17592186044416"
  unfolding double_times_def
  by (subst double_of_eval [where a = 45]) (simp_all add: round_half_even_def)

lemma bmr_male_80_10: "double_minus (2225347762944213 / 1099511627776) (2996125205224489 / 17592186044416) = 4076179875235365 / 2199023255552"
  unfolding double_minus_def
  by (subst double_of_eval [where a = 42]) (simp_all add: round_half_even_def)

lemma bmr_male_42_1: "double_of (44181 / 500) = 3108961486513373 / 35184372088832"
  by (subst double_of_eval [where a = 46]) (simp_all add: round_half_even_def)

lemma bmr_male_42_2: "double_of (13397 / 1000) = 7541840525985317 / 562949953421312"
  by (subst double_of_eval [where a = 49]) (simp_all add: round_half_even_def)

lemma bmr_male_42_3: "double_of (4799 / 1000) = 5403193652937753 / 1125899906842624"
  by (subst double_of_eval [where a = 50]) (simp_all add: round_half_even_def)

lemma bmr_male_42_4: "double_of (5677 / 1000) = 798966721393197 / 140737488355328"
  by (subst double_of_eval [where a = 50]) (simp_all add: round_half_even_def)

lemma bmr_male_42_5: "double_times (7541840525985317 / 562949953421312) 42 = 618666605647233 / 1099511627776"
  unfolding double_times_def
  by (subst double_of_eval [where a = 43]) (simp_all add: round_half_even_def)

lemma bmr_male_42_6: "double_plus (3108961486513373 / 35184372088832) (618666605647233 / 1099511627776) = 5726573216806207 / 8796093022208"
  unfolding double_plus_def
  by (subst double_of_eval [where a = 43]) (simp_all add: round_half_even_def)

lemma bmr_male_42_7: "double_times (5403193652937753 / 1125899906842624) 115 = 2427215898780631 / 4398046511104"
  unfolding double_times_def
  by (subst double_of_eval [where a = 43]) (simp_all add: round_half_even_def)

lemma bmr_male_42_8: "double_plus (5726573216806207 / 8796093022208) (2427215898780631 / 4398046511104) = 2645251253591867 / 2199023255552"
  unfolding double_plus_def
  by (subst double_of_eval [where a = 42]) (simp_all add: round_half_even_def)

lemma bmr_male_42_9: "double_times (798966721393197 / 140737488355328) 73 = 7290571332712923 / 17592186044416"
  unfolding double_times_def
  by (subst double_of_eval [where a = 44]) (simp_all add: round_half_even_def)

lemma bmr_male_42_10: "double_minus (2645251253591867 / 2199023255552) (7290571332712923 / 17592186044416) = 3467859674005503 / 4398046511104"
  unfolding double_minus_def
  by (subst double_of_eval [where a = 43]) (simp_all add: round_half_even_def)

lemma bmr_other_80_1: "double_of (447593 / 1000) = 7874139328178291 / 17592186044416"
  by (subst double_of_eval [where a = 44]) (simp_all add: round_half_even_def)

lemma bmr_other_80_2: "double_of (9247 / 1000) = 650699777410859 / 70368744177664"
  by (subst double_of_eval [where a = 49]) (simp_all add: round_half_even_def)

lemma bmr_other_80_3: "double_of (1549 / 500) = 3488037911398449 / 1125899906842624"
  by (subst double_of_eval [where a = 51]) (simp_all add: round_half_even_def)

lemma bmr_other_80_4: "double_of (433 / 100) = 2437573298314281 / 562949953421312"
  by (subst double_of_eval [where a = 50]) (simp_all add: round_half_even_def)

lemma bmr_other_80_5: "double_times (650699777410859 / 70368744177664) 80 = 3253498887054295 / 4398046511104"
  unfolding double_times_def
  by (subst double_of_eval [where a = 43]) (simp_all add: round_half_even_def)

lemma bmr_other_80_6: "double_plus (7874139328178291 / 17592186044416) (3253498887054295 / 4398046511104) = 1305508429774717 / 1099511627776"
  unfolding double_plus_def
  by (subst double_of_eval [where a = 42]) (simp_all add: round_half_even_def)

lemma bmr_other_80_7: "double_times (3488037911398449 / 1125899906842624) 180 = 4905053312904069 / 8796093022208"
  unfolding double_times_def
  by (subst double_of_eval [where a = 43]) (simp_all add: round_half_even_def)

lemma bmr_other_80_8: "double_plus (1305508429774717 / 1099511627776) (4905053312904069 / 8796093022208) = 3837280187775451 / 2199023255552"
  unfolding double_plus_def
  by (subst double_of_eval [where a = 42]) (simp_all add: round_half_even_def)

lemma bmr_other_80_9: "double_times (2437573298314281 / 562949953421312) 30 = 4570449934339277 / 35184372088832"
  unfolding double_times_def
  by (subst double_of_eval [where a = 45]) (simp_all add: round_half_even_def)

lemma bmr_other_80_10: "double_minus (3837280187775451 / 2199023255552) (4570449934339277 / 35184372088832) = 1775813533439623 / 1099511627776"
  unfolding double_minus_def
  by (subst double_of_eval [where a = 42]) (simp_all add: round_half_even_def)

lemmas bmr_male_80 = bmr_male_80_1 bmr_male_80_2 bmr_male_80_3 bmr_male_80_4 bmr_male_80_5
  bmr_male_80_6 bmr_male_80_7 bmr_male_80_8 bmr_male_80_9 bmr_male_80_10

lemmas bmr_male_42 = bmr_male_42_1 bmr_male_42_2 bmr_male_42_3 bmr_male_42_4 bmr_male_42_5
  bmr_male_42_6 bmr_male_42_7 bmr_male_42_8 bmr_male_42_9 bmr_male_42_10

lemmas bmr_other_80 = bmr_other_80_1 bmr_other_80_2 bmr_other_80_3 bmr_other_80_4
  bmr_other_80_5 bmr_other_80_6 bmr_other_80_7 bmr_other_80_8 bmr_other_80_9 bmr_other_80_10

lemma calculateBMR_male_80: "calculateBMR user_male_80_180_30 = 1854"
  by (simp add: calculateBMR_def user_male_80_180_30_def bmr_male_80 Math_round_def)

lemma calculateBMR_male_42: "calculateBMR user_male_42_115_73 = 788"
  by (simp add: calculateBMR_def user_male_42_115_73_def bmr_male_42 Math_round_def)

lemma calculateBMR_other_80: "calculateBMR user_other_80_180_30 = 1615"
  by (simp add: calculateBMR_def user_other_80_180_30_def bmr_other_80 Math_round_def)

text \<open>
  C2, the claim as stated fails in two ways. For the male user with weight 80, height 180
  and age 30 the formula's value is 1853.632, so \<^verbatim>\<open>calculateBMR\<close> returns 1854 and not
  1796. And for the male user with weight 42, height 115 and age 73 the exact value of the
  formula is 788.5, which rounds to 789, but the sum in doubles is 788.4999999999998 and the
  method returns 788.
\<close>

theorem calculateBMR_example_counterexample:
  "calculateBMR user_male_80_180_30 = 1854 \<and> calculateBMR user_male_80_180_30 \<noteq> 1796
   \<and> calculateBMR user_male_42_115_73 = 788
   \<and> Math_round (88362 / 1000 + 13397 / 1000 * 42 + 4799 / 1000 * 115 - 5677 / 1000 * 73) = 789"
  by (simp add: calculateBMR_male_80 calculateBMR_male_42 Math_round_def)

text \<open>The formula in doubles is within one billionth of the exact formula.\<close>

lemma bmr_close:
  assumes c: "0 \<le> c0" "c0 \<le> 448" "0 \<le> c1" "c1 \<le> 14" "0 \<le> c2" "c2 \<le> 5" "0 \<le> c3" "c3 \<le> 6"
    and w: "20 \<le> w" "w \<le> 300" and h: "100 \<le> h" "h \<le> 250" and a: "13 \<le> a" "a \<le> 120"
  shows "\<bar>BMR_in_doubles c0 c1 c2 c3 w h a - (c0 + c1 * w + c2 * h - c3 * a)\<bar> \<le> 1 / 10 ^ 9"
proof -
  define k0 where "k0 = double_of c0"
  define k1 where "k1 = double_of c1"
  define k2 where "k2 = double_of c2"
  define k3 where "k3 = double_of c3"
  define t1 where "t1 = double_times k1 w"
  define s1 where "s1 = double_plus k0 t1"
  define t2 where "t2 = double_times k2 h"
  define s2 where "s2 = double_plus s1 t2"
  define t3 where "t3 = double_times k3 a"
  have k0: "\<bar>k0 - c0\<bar> \<le> 448 / 2 ^ 52"
    unfolding k0_def using c by (intro double_of_close) simp_all
  have k1: "\<bar>k1 - c1\<bar> \<le> 14 / 2 ^ 52"
    unfolding k1_def using c by (intro double_of_close) simp_all
  have k2: "\<bar>k2 - c2\<bar> \<le> 5 / 2 ^ 52"
    unfolding k2_def using c by (intro double_of_close) simp_all
  have k3: "\<bar>k3 - c3\<bar> \<le> 6 / 2 ^ 52"
    unfolding k3_def using c by (intro double_of_close) simp_all
  have "\<bar>k0 - c0\<bar> \<le> 1" by (rule order_trans [OF k0]) simp
  then have k0b: "\<bar>k0\<bar> \<le> 449" using c by linarith
  have "\<bar>k1 - c1\<bar> \<le> 1" by (rule order_trans [OF k1]) simp
  then have k1b: "\<bar>k1\<bar> \<le> 15" using c by linarith
  have "\<bar>k2 - c2\<bar> \<le> 1" by (rule order_trans [OF k2]) simp
  then have k2b: "\<bar>k2\<bar> \<le> 6" using c by linarith
  have "\<bar>k3 - c3\<bar> \<le> 1" by (rule order_trans [OF k3]) simp
  then have k3b: "\<bar>k3\<bar> \<le> 7" using c by linarith
  have c1w: "\<bar>c1 * w\<bar> \<le> 14 * 300" unfolding abs_mult using c w by (intro mult_mono) simp_all
  have c2h: "\<bar>c2 * h\<bar> \<le> 5 * 250" unfolding abs_mult using c h by (intro mult_mono) simp_all
  have c3a: "\<bar>c3 * a\<bar> \<le> 6 * 120" unfolding abs_mult using c a by (intro mult_mono) simp_all
  have t1: "\<bar>t1 - c1 * w\<bar> \<le> 15 * 300 / 2 ^ 52 + (14 / 2 ^ 52 * 300 + 14 * 0)"
    unfolding t1_def using k1 _ _ k1b
    by (rule double_times_close [where B = w]) (use c w in simp_all)
  have t2: "\<bar>t2 - c2 * h\<bar> \<le> 6 * 250 / 2 ^ 52 + (5 / 2 ^ 52 * 250 + 5 * 0)"
    unfolding t2_def using k2 _ _ k2b
    by (rule double_times_close [where B = h]) (use c h in simp_all)
  have t3: "\<bar>t3 - c3 * a\<bar> \<le> 7 * 120 / 2 ^ 52 + (6 / 2 ^ 52 * 120 + 6 * 0)"
    unfolding t3_def using k3 _ _ k3b
    by (rule double_times_close [where B = a]) (use c a in simp_all)
  have "\<bar>t1 - c1 * w\<bar> \<le> 1" by (rule order_trans [OF t1]) simp
  then have t1b: "\<bar>t1\<bar> \<le> 4201" using c1w by linarith
  have "\<bar>t2 - c2 * h\<bar> \<le> 1" by (rule order_trans [OF t2]) simp
  then have t2b: "\<bar>t2\<bar> \<le> 1251" using c2h by linarith
  have "\<bar>t3 - c3 * a\<bar> \<le> 1" by (rule order_trans [OF t3]) simp
  then have t3b: "\<bar>t3\<bar> \<le> 721" using c3a by linarith
  have "\<bar>k0 + t1\<bar> \<le> 5000" using k0b t1b by linarith
  from double_plus_close [OF k0 t1 this]
  have s1: "\<bar>s1 - (c0 + c1 * w)\<bar>
      \<le> 5000 / 2 ^ 52 + (448 / 2 ^ 52 + (15 * 300 / 2 ^ 52 + (14 / 2 ^ 52 * 300 + 14 * 0)))"
    unfolding s1_def by simp
  have "\<bar>s1 - (c0 + c1 * w)\<bar> \<le> 1" by (rule order_trans [OF s1]) simp
  then have s1b: "\<bar>s1\<bar> \<le> 5000" using c c1w by linarith
  have "\<bar>s1 + t2\<bar> \<le> 7000" using s1b t2b by linarith
  from double_plus_close [OF s1 t2 this]
  have s2: "\<bar>s2 - (c0 + c1 * w + c2 * h)\<bar>
      \<le> 7000 / 2 ^ 52
         + (5000 / 2 ^ 52 + (448 / 2 ^ 52 + (15 * 300 / 2 ^ 52 + (14 / 2 ^ 52 * 300 + 14 * 0)))
            + (6 * 250 / 2 ^ 52 + (5 / 2 ^ 52 * 250 + 5 * 0)))"
    unfolding s2_def by simp
  have "\<bar>s2 - (c0 + c1 * w + c2 * h)\<bar> \<le> 1" by (rule order_trans [OF s2]) simp
  then have s2b: "\<bar>s2\<bar> \<le> 7000" using c c1w c2h by linarith
  have "\<bar>s2 - t3\<bar> \<le> 8000" using s2b t3b by linarith
  from double_minus_close [OF s2 t3 this]
  have "\<bar>double_minus s2 t3 - (c0 + c1 * w + c2 * h - c3 * a)\<bar>
      \<le> 8000 / 2 ^ 52
         + (7000 / 2 ^ 52
            + (5000 / 2 ^ 52 + (448 / 2 ^ 52 + (15 * 300 / 2 ^ 52 + (14 / 2 ^ 52 * 300 + 14 * 0)))
               + (6 * 250 / 2 ^ 52 + (5 / 2 ^ 52 * 250 + 5 * 0)))
            + (7 * 120 / 2 ^ 52 + (6 / 2 ^ 52 * 120 + 6 * 0)))"
    by simp
  then have "\<bar>double_minus s2 t3 - (c0 + c1 * w + c2 * h - c3 * a)\<bar> \<le> 1 / 10 ^ 9"
    by (rule order_trans) simp
  then show ?thesis
    unfolding BMR_in_doubles_def s2_def s1_def t1_def t2_def t3_def k0_def k1_def k2_def k3_def .
qed


lemma calculateBMR_unfold:
  "gender u = ''male'' \<Longrightarrow>
     calculateBMR u = Math_round (BMR_in_doubles (88362 / 1000) (13397 / 1000) (4799 / 1000)
                        (5677 / 1000) (weight u) (height u) (age u))"
  "gender u \<noteq> ''male'' \<Longrightarrow>
     calculateBMR u = Math_round (BMR_in_doubles (447593 / 1000) (9247 / 1000) (3098 / 1000)
                        (4330 / 1000) (weight u) (height u) (age u))"
  by (simp_all add: calculateBMR_def BMR_in_doubles_def)

text \<open>
  C2, amended: for a user within the ranges of the schema, the BMR is Math.round of the male
  formula when the gender is male, and of the female formula for every other gender, female
  and other alike, the formula being evaluated in doubles from left to right: the result is
  the integer nearest to that double, a tie going up, and it is within 0.5 + 0.000000001 of the
  exact value of the formula. For the male user with weight 80, height 180, age 30 it is
  1854; for the male user with weight 42, height 115, age 73 it is 788.
\<close>

theorem calculateBMR_formula:
  "(13 \<le> age u \<and> age u \<le> 120 \<and> 20 \<le> weight u \<and> weight u \<le> 300
      \<and> 100 \<le> height u \<and> height u \<le> 250 \<longrightarrow>
      (gender u = ''male'' \<longrightarrow>
         calculateBMR u
           = Math_round (BMR_in_doubles (88362 / 1000) (13397 / 1000) (4799 / 1000)
               (5677 / 1000) (weight u) (height u) (age u))
         \<and> (\<exists>n::int. calculateBMR u = of_int n
               \<and> of_int n - 1 / 2
                   \<le> BMR_in_doubles (88362 / 1000) (13397 / 1000) (4799 / 1000) (5677 / 1000)
                        (weight u) (height u) (age u)
               \<and> BMR_in_doubles (88362 / 1000) (13397 / 1000) (4799 / 1000) (5677 / 1000)
                        (weight u) (height u) (age u) < of_int n + 1 / 2
               \<and> \<bar>of_int n - BMR_male_exact (weight u) (height u) (age u)\<bar>
                   \<le> 1 / 2 + 1 / 10 ^ 9))
      \<and> (gender u \<noteq> ''male'' \<longrightarrow>
         calculateBMR u
           = Math_round (BMR_in_doubles (447593 / 1000) (9247 / 1000) (3098 / 1000)
               (4330 / 1000) (weight u) (height u) (age u))
         \<and> (\<exists>n::int. calculateBMR u = of_int n
               \<and> of_int n - 1 / 2
                   \<le> BMR_in_doubles (447593 / 1000) (9247 / 1000) (3098 / 1000) (4330 / 1000)
                        (weight u) (height u) (age u)
               \<and> BMR_in_doubles (447593 / 1000) (9247 / 1000) (3098 / 1000) (4330 / 1000)
                        (weight u) (height u) (age u) < of_int n + 1 / 2
               \<and> \<bar>of_int n - BMR_female_exact (weight u) (height u) (age u)\<bar>
                   \<le> 1 / 2 + 1 / 10 ^ 9)
         \<and> calculateBMR u = calculateBMR (u\<lparr>gender := ''female''\<rparr>)))
   \<and> calculateBMR user_male_80_180_30 = 1854
   \<and> calculateBMR user_male_42_115_73 = 788"
proof (intro conjI impI)
  assume r: "13 \<le> age u \<and> age u \<le> 120 \<and> 20 \<le> weight u \<and> weight u \<le> 300
      \<and> 100 \<le> height u \<and> height u \<le> 250"
    and g: "gender u = ''male''"
  show "calculateBMR u
           = Math_round (BMR_in_doubles (88362 / 1000) (13397 / 1000) (4799 / 1000)
               (5677 / 1000) (weight u) (height u) (age u))"
    using g by (rule calculateBMR_unfold)
  have "\<bar>BMR_in_doubles (88362 / 1000) (13397 / 1000) (4799 / 1000) (5677 / 1000)
           (weight u) (height u) (age u)
         - (88362 / 1000 + 13397 / 1000 * weight u + 4799 / 1000 * height u
              - 5677 / 1000 * age u)\<bar> \<le> 1 / 10 ^ 9"
    using r by (intro bmr_close) simp_all
  from Math_round_characterised [OF this]
  show "\<exists>n::int. calculateBMR u = of_int n
               \<and> of_int n - 1 / 2
                   \<le> BMR_in_doubles (88362 / 1000) (13397 / 1000) (4799 / 1000) (5677 / 1000)
                        (weight u) (height u) (age u)
               \<and> BMR_in_doubles (88362 / 1000) (13397 / 1000) (4799 / 1000) (5677 / 1000)
                        (weight u) (height u) (age u) < of_int n + 1 / 2
               \<and> \<bar>of_int n - BMR_male_exact (weight u) (height u) (age u)\<bar>
                   \<le> 1 / 2 + 1 / 10 ^ 9"
    unfolding calculateBMR_unfold(1) [OF g] BMR_male_exact_def .
next
  assume r: "13 \<le> age u \<and> age u \<le> 120 \<and> 20 \<le> weight u \<and> weight u \<le> 300
      \<and> 100 \<le> height u \<and> height u \<le> 250"
    and g: "gender u \<noteq> ''male''"
  show "calculateBMR u
           = Math_round (BMR_in_doubles (447593 / 1000) (9247 / 1000) (3098 / 1000)
               (4330 / 1000) (weight u) (height u) (age u))"
    using g by (rule calculateBMR_unfold)
  have "\<bar>BMR_in_doubles (447593 / 1000) (9247 / 1000) (3098 / 1000) (4330 / 1000)
           (weight u) (height u) (age u)
         - (447593 / 1000 + 9247 / 1000 * weight u + 3098 / 1000 * height u
              - 4330 / 1000 * age u)\<bar> \<le> 1 / 10 ^ 9"
    using r by (intro bmr_close) simp_all
  from Math_round_characterised [OF this]
  show "\<exists>n::int. calculateBMR u = of_int n
               \<and> of_int n - 1 / 2
                   \<le> BMR_in_doubles (447593 / 1000) (9247 / 1000) (3098 / 1000) (4330 / 1000)
                        (weight u) (height u) (age u)
               \<and> BMR_in_doubles (447593 / 1000) (9247 / 1000) (3098 / 1000) (4330 / 1000)
                        (weight u) (height u) (age u) < of_int n + 1 / 2
               \<and> \<bar>of_int n - BMR_female_exact (weight u) (height u) (age u)\<bar>
                   \<le> 1 / 2 + 1 / 10 ^ 9"
    unfolding calculateBMR_unfold(2) [OF g] BMR_female_exact_def .
  show "calculateBMR u = calculateBMR (u\<lparr>gender := ''female''\<rparr>)"
    using g by (simp add: calculateBMR_def)
next
  show "calculateBMR user_male_80_180_30 = 1854" by (rule calculateBMR_male_80)
  show "calculateBMR user_male_42_115_73 = 788" by (rule calculateBMR_male_42)
qed

theorem calculateBMR_formula_witness:
  "calculateBMR user_male_80_180_30 = 1854
   \<and> calculateBMR user_other_80_180_30 = 1615
   \<and> calculateBMR user_other_80_180_30 = calculateBMR (user_other_80_180_30\<lparr>gender := ''female''\<rparr>)"
proof -
  have r1: "13 \<le> age user_male_80_180_30 \<and> age user_male_80_180_30 \<le> 120
      \<and> 20 \<le> weight user_male_80_180_30 \<and> weight user_male_80_180_30 \<le> 300
      \<and> 100 \<le> height user_male_80_180_30 \<and> height user_male_80_180_30 \<le> 250"
    by (simp add: user_male_80_180_30_def)
  have r2: "13 \<le> age user_other_80_180_30 \<and> age user_other_80_180_30 \<le> 120
      \<and> 20 \<le> weight user_other_80_180_30 \<and> weight user_other_80_180_30 \<le> 300
      \<and> 100 \<le> height user_other_80_180_30 \<and> height user_other_80_180_30 \<le> 250"
    by (simp add: user_other_80_180_30_def)
  have m: "gender user_male_80_180_30 = ''male''"
    by (simp add: user_male_80_180_30_def)
  have o: "gender user_other_80_180_30 \<noteq> ''male''"
    by (simp add: user_other_80_180_30_def)
  have v1: "Math_round (BMR_in_doubles (88362 / 1000) (13397 / 1000) (4799 / 1000)
               (5677 / 1000) (weight user_male_80_180_30) (height user_male_80_180_30)
               (age user_male_80_180_30)) = 1854"
    by (simp add: BMR_in_doubles_def user_male_80_180_30_def bmr_male_80 Math_round_def)
  have v2: "Math_round (BMR_in_doubles (447593 / 1000) (9247 / 1000) (3098 / 1000)
               (4330 / 1000) (weight user_other_80_180_30) (height user_other_80_180_30)
               (age user_other_80_180_30)) = 1615"
    by (simp add: BMR_in_doubles_def user_other_80_180_30_def bmr_other_80 Math_round_def)
  from calculateBMR_formula [of user_male_80_180_30] r1 m
  have "calculateBMR user_male_80_180_30
          = Math_round (BMR_in_doubles (88362 / 1000) (13397 / 1000) (4799 / 1000)
               (5677 / 1000) (weight user_male_80_180_30) (height user_male_80_180_30)
               (age user_male_80_180_30))"
    by blast
  then have a: "calculateBMR user_male_80_180_30 = 1854" unfolding v1 .
  from calculateBMR_formula [of user_other_80_180_30] r2 o
  have "calculateBMR user_other_80_180_30
          = Math_round (BMR_in_doubles (447593 / 1000) (9247 / 1000) (3098 / 1000)
               (4330 / 1000) (weight user_other_80_180_30) (height user_other_80_180_30)
               (age user_other_80_180_30))"
    and c: "calculateBMR user_other_80_180_30
              = calculateBMR (user_other_80_180_30\<lparr>gender := ''female''\<rparr>)"
    by blast+
  then have b: "calculateBMR user_other_80_180_30 = 1615" unfolding v2 by simp
  show ?thesis using a b c by simp
qed

subsection \<open>C3: meal totals\<close>

lemma fold_add_food:
  "totalCalories (fold add_food fs m)
     = foldl (\<lambda>s f. double_plus s (double_times (calories f) (quantity f))) (totalCalories m) fs
   \<and> totalProtein (fold add_food fs m)
     = foldl (\<lambda>s f. double_plus s (double_times (protein f) (quantity f))) (totalProtein m) fs
   \<and> totalCarbs (fold add_food fs m)
     = foldl (\<lambda>s f. double_plus s (double_times (carbs f) (quantity f))) (totalCarbs m) fs
   \<and> totalFat (fold add_food fs m)
     = foldl (\<lambda>s f. double_plus s (double_times (fat f) (quantity f))) (totalFat m) fs
   \<and> totalFiber (fold add_food fs m)
     = foldl (\<lambda>s f. double_plus s (double_times (fiber f) (quantity f))) (totalFiber m) fs
   \<and> totalSugar (fold add_food fs m)
     = foldl (\<lambda>s f. double_plus s (double_times (sugar f) (quantity f))) (totalSugar m) fs
   \<and> foods (fold add_food fs m) = foods m"
  by (induction fs arbitrary: m) (simp_all add: add_food_def)

lemma calculateTotals_fields:
  "totalCalories (calculateTotals m) = round_to_hundredths (sum_in_doubles calories (foods m))"
  "totalProtein (calculateTotals m) = round_to_hundredths (sum_in_doubles protein (foods m))"
  "totalCarbs (calculateTotals m) = round_to_hundredths (sum_in_doubles carbs (foods m))"
  "totalFat (calculateTotals m) = round_to_hundredths (sum_in_doubles fat (foods m))"
  "totalFiber (calculateTotals m) = round_to_hundredths (sum_in_doubles fiber (foods m))"
  "totalSugar (calculateTotals m) = round_to_hundredths (sum_in_doubles sugar (foods m))"
  by (simp_all add: calculateTotals_def Let_def fold_add_food sum_in_doubles_def)

lemma round_to_hundredths_nearest: "nearest_hundredth_in_doubles s (round_to_hundredths s)"
proof -
  define n where "n = \<lfloor>double_times s 100 + 1 / 2\<rfloor>"
  have "round_to_hundredths s = double_divide (of_int n) 100"
    by (simp add: round_to_hundredths_def Math_round_def n_def)
  moreover have "of_int n - 1 / 2 \<le> double_times s 100" "double_times s 100 < of_int n + 1 / 2"
    unfolding n_def by linarith+
  ultimately show ?thesis
    unfolding nearest_hundredth_in_doubles_def by blast
qed

lemma round_to_hundredths_0: "round_to_hundredths 0 = 0"
  by (simp add: round_to_hundredths_def double_times_def double_divide_def Math_round_def)

lemma meal_250_1: "double_times 100 2 = 200"
  unfolding double_times_def
  by (subst double_of_eval [where a = 45]) (simp_all add: round_half_even_def)

lemma meal_250_2: "double_plus 0 200 = 200"
  unfolding double_plus_def
  by (subst double_of_eval [where a = 45]) (simp_all add: round_half_even_def)

lemma meal_250_3: "double_times 50 1 = 50"
  unfolding double_times_def
  by (subst double_of_eval [where a = 47]) (simp_all add: round_half_even_def)

lemma meal_250_4: "double_plus 200 50 = 250"
  unfolding double_plus_def
  by (subst double_of_eval [where a = 45]) (simp_all add: round_half_even_def)

lemma meal_250_5: "double_times 250 100 = 25000"
  unfolding double_times_def
  by (subst double_of_eval [where a = 38]) (simp_all add: round_half_even_def)

lemma meal_250_6: "double_divide 25000 100 = 250"
  unfolding double_divide_def
  by (subst double_of_eval [where a = 45]) (simp_all add: round_half_even_def)

lemmas meal_250 = meal_250_1 meal_250_2 meal_250_3 meal_250_4 meal_250_5 meal_250_6

lemma calculateTotals_meal_example: "totalCalories (calculateTotals meal_example) = 250"
  by (simp add: calculateTotals_fields sum_in_doubles_def meal_example_def food_100_x2_def
      food_50_x1_def round_to_hundredths_def Math_round_def meal_250)

lemma meal_tie_1: "double_of (1 / 20) = 3602879701896397 / 72057594037927936"
  by (subst double_of_eval [where a = 57]) (simp_all add: round_half_even_def)

lemma meal_tie_2: "double_of (29 / 10) = 6530219459687219 / 2251799813685248"
  by (subst double_of_eval [where a = 51]) (simp_all add: round_half_even_def)

lemma meal_tie_3: "double_times (3602879701896397 / 72057594037927936) (6530219459687219 / 2251799813685248) = 5224175567749775 / 36028797018963968"
  unfolding double_times_def
  by (subst double_of_eval [where a = 55]) (simp_all add: round_half_even_def)

lemma meal_tie_4: "double_plus 0 (5224175567749775 / 36028797018963968) = 5224175567749775 / 36028797018963968"
  unfolding double_plus_def
  by (subst double_of_eval [where a = 55]) (simp_all add: round_half_even_def)

lemma meal_tie_5: "double_times (5224175567749775 / 36028797018963968) 100 = 8162774324609023 / 562949953421312"
  unfolding double_times_def
  by (subst double_of_eval [where a = 49]) (simp_all add: round_half_even_def)

lemma meal_tie_6: "double_divide 14 100 = 1261007895663739 / 9007199254740992"
  unfolding double_divide_def
  by (subst double_of_eval [where a = 55]) (simp_all add: round_half_even_def)

lemma meal_tie_7: "double_of (7 / 50) = 1261007895663739 / 9007199254740992"
  by (subst double_of_eval [where a = 55]) (simp_all add: round_half_even_def)

lemmas meal_tie = meal_tie_1 meal_tie_2 meal_tie_3 meal_tie_4 meal_tie_5 meal_tie_6 meal_tie_7

lemma calculateTotals_meal_protein_tie:
  "totalProtein (calculateTotals meal_protein_tie) = double_of (14 / 100)"
  by (simp add: calculateTotals_fields sum_in_doubles_def meal_protein_tie_def
      food_protein_005_x29_def round_to_hundredths_def Math_round_def meal_tie)

text \<open>
  C3, counterexample to the rounding as the specification states it. A meal of one food with
  0.05 of protein per unit in the quantity 2.9 (both as the doubles the program receives): the
  exact sum of protein * quantity is at least 0.145, so that its rounding to two decimal
  places, half up, is 0.15; the program stores the double of 0.14, because the product
  computed in doubles, times 100, is 14.499999999999998. The same happens with the decimal
  numbers 0.05 and 2.9 themselves, whose product is 0.145.
\<close>

theorem calculateTotals_half_up_counterexample:
  "totalProtein (calculateTotals meal_protein_tie) = double_of (14 / 100)
   \<and> rounded_2dp_half_up (\<Sum>f\<leftarrow>foods meal_protein_tie. protein f * quantity f) (15 / 100)
   \<and> rounded_2dp_half_up (5 / 100 * (29 / 10)) (15 / 100)
   \<and> double_of (14 / 100) \<noteq> double_of (15 / 100)
   \<and> \<not> rounded_2dp_half_up (\<Sum>f\<leftarrow>foods meal_protein_tie. protein f * quantity f)
         (totalProtein (calculateTotals meal_protein_tie))"
proof -
  have s: "(\<Sum>f\<leftarrow>foods meal_protein_tie. protein f * quantity f)
             = 3602879701896397 / 72057594037927936 * (6530219459687219 / 2251799813685248)"
    by (simp add: meal_protein_tie_def food_protein_005_x29_def meal_tie)
  have d14: "double_of (14 / 100) = 1261007895663739 / 9007199254740992"
    by (simp add: meal_tie)
  have d15: "double_of (15 / 100) = 5404319552844595 / 36028797018963968"
    by (subst double_of_eval [where a = 55]) (simp_all add: round_half_even_def)
  have n: "1261007895663739 / 9007199254740992 * 100 \<noteq> real_of_int k" for k
  proof
    assume "1261007895663739 / 9007199254740992 * 100 = real_of_int k"
    then have "real_of_int 31525197391593475 = real_of_int (k * 2251799813685248)"
      by simp
    then have "(31525197391593475 :: int) = k * 2251799813685248"
      by (simp only: of_int_eq_iff)
    then have "(31525197391593475 :: int) mod 2 = k * 2251799813685248 mod 2"
      by (rule arg_cong)
    then show False
      by simp
  qed
  have r: "\<not> rounded_2dp_half_up x (1261007895663739 / 9007199254740992)" for x
    using n [of "\<lfloor>1261007895663739 / 9007199254740992 * 100\<rfloor>"]
    unfolding rounded_2dp_half_up_def by metis
  show ?thesis
    unfolding calculateTotals_meal_protein_tie
    unfolding s d14 d15
    using r by (simp add: rounded_2dp_half_up_def)
qed

text \<open>
  C3, as the program computes it. For a list of foods in the range of the model, each of the
  six stored totals is \<^verbatim>\<open>Math.round(s * 100) / 100\<close> evaluated in doubles, where \<open>s\<close> is
  the sum of field * quantity accumulated in doubles from left to right, starting from 0:
  the double of \<open>n / 100\<close> for the integer \<open>n\<close> nearest to the double of \<open>s * 100\<close>, a tie
  going up, each total on its own. With no foods every total is 0. The foods
  [100 calories * 2, 50 calories * 1] give the total 250, and protein 0.05 in the quantity
  2.9 gives the double of 0.14.
\<close>

theorem calculateTotals_rounds_sums:
  "(foods_in_range (foods m) \<longrightarrow>
      totalCalories (calculateTotals m) = round_to_hundredths (sum_in_doubles calories (foods m))
      \<and> nearest_hundredth_in_doubles (sum_in_doubles calories (foods m))
          (totalCalories (calculateTotals m))
      \<and> totalProtein (calculateTotals m) = round_to_hundredths (sum_in_doubles protein (foods m))
      \<and> nearest_hundredth_in_doubles (sum_in_doubles protein (foods m))
          (totalProtein (calculateTotals m))
      \<and> totalCarbs (calculateTotals m) = round_to_hundredths (sum_in_doubles carbs (foods m))
      \<and> nearest_hundredth_in_doubles (sum_in_doubles carbs (foods m))
          (totalCarbs (calculateTotals m))
      \<and> totalFat (calculateTotals m) = round_to_hundredths (sum_in_doubles fat (foods m))
      \<and> nearest_hundredth_in_doubles (sum_in_doubles fat (foods m))
          (totalFat (calculateTotals m))
      \<and> totalFiber (calculateTotals m) = round_to_hundredths (sum_in_doubles fiber (foods m))
      \<and> nearest_hundredth_in_doubles (sum_in_doubles fiber (foods m))
          (totalFiber (calculateTotals m))
      \<and> totalSugar (calculateTotals m) = round_to_hundredths (sum_in_doubles sugar (foods m))
      \<and> nearest_hundredth_in_doubles (sum_in_doubles sugar (foods m))
          (totalSugar (calculateTotals m)))
   \<and> (foods m = [] \<longrightarrow>
        totalCalories (calculateTotals m) = 0 \<and> totalProtein (calculateTotals m) = 0
        \<and> totalCarbs (calculateTotals m) = 0 \<and> totalFat (calculateTotals m) = 0
        \<and> totalFiber (calculateTotals m) = 0 \<and> totalSugar (calculateTotals m) = 0)
   \<and> totalCalories (calculateTotals meal_example) = 250
   \<and> totalProtein (calculateTotals meal_protein_tie) = double_of (14 / 100)"
proof -
  have e: "sum_in_doubles field [] = 0" for field
    by (simp add: sum_in_doubles_def)
  have "foods m = [] \<longrightarrow>
        totalCalories (calculateTotals m) = 0 \<and> totalProtein (calculateTotals m) = 0
        \<and> totalCarbs (calculateTotals m) = 0 \<and> totalFat (calculateTotals m) = 0
        \<and> totalFiber (calculateTotals m) = 0 \<and> totalSugar (calculateTotals m) = 0"
    by (simp add: calculateTotals_fields e round_to_hundredths_0)
  then show ?thesis
    using calculateTotals_meal_example calculateTotals_meal_protein_tie
    by (simp only: calculateTotals_fields [of m] round_to_hundredths_nearest simp_thms)
qed

theorem calculateTotals_rounds_sums_witness:
  "foods_in_range (foods meal_example)
   \<and> foods meal_protein_tie \<noteq> []
   \<and> totalCalories (calculateTotals meal_example) = 250
   \<and> nearest_hundredth_in_doubles (sum_in_doubles calories (foods meal_example)) 250"
proof -
  have r: "foods_in_range (foods meal_example)"
    by (simp add: foods_in_range_def meal_example_def food_100_x2_def food_50_x1_def)
  have e: "totalCalories (calculateTotals meal_example) = 250"
    using calculateTotals_rounds_sums [of meal_example] by blast
  have "nearest_hundredth_in_doubles (sum_in_doubles calories (foods meal_example))
          (totalCalories (calculateTotals meal_example))"
    using calculateTotals_rounds_sums [of meal_example] r by blast
  with r e show ?thesis
    by (simp add: meal_protein_tie_def)
qed

subsection \<open>C4: sleep duration\<close>

lemma Math_round_double_quotient:
  fixes d :: int
  assumes d: "\<bar>d\<bar> \<le> 600000000000000"
  shows "Math_round (double_of (of_int d / 60000)) = Math_round (of_int d / 60000)"
proof -
  define q :: real where "q = of_int d / 60000"
  define n where "n = \<lfloor>q + 1 / 2\<rfloor>"
  have n: "of_int n - 1 / 2 \<le> q" "q < of_int n + 1 / 2"
    unfolding n_def by linarith+
  have "\<bar>real_of_int d\<bar> \<le> 600000000000000"
    using d by (metis of_int_abs of_int_le_iff of_int_numeral)
  then have qb: "\<bar>q\<bar> \<le> 10000000000"
    unfolding q_def by simp
  have "\<bar>real_of_int n\<bar> \<le> 10000000001"
    using n qb by linarith
  then have "\<bar>real_of_int (2 * n - 1)\<bar> < 2 ^ 53"
    by simp
  then have "\<bar>2 * n - 1\<bar> < 2 ^ 53"
    by (metis of_int_abs of_int_less_iff of_int_numeral of_int_power)
  then have "double_of (of_int (2 * n - 1) / 2) = of_int (2 * n - 1) / 2"
    by (rule double_of_half_int)
  then have r: "double_of (of_int n - 1 / 2) = of_int n - 1 / 2"
    by (simp add: diff_divide_distrib)
  have "double_of (of_int n - 1 / 2) \<le> double_of q"
    using n(1) by (rule double_of_mono)
  then have lower: "of_int n - 1 / 2 \<le> double_of q"
    unfolding r .
  have "real_of_int d < 60000 * (of_int n + 1 / 2)"
    using n(2) unfolding q_def by simp
  then have "real_of_int d < of_int (60000 * n + 30000)"
    by simp
  then have "d < 60000 * n + 30000"
    by (simp only: of_int_less_iff)
  then have "d \<le> 60000 * n + 29999"
    by simp
  then have "real_of_int d \<le> of_int (60000 * n + 29999)"
    by (simp only: of_int_le_iff)
  then have qu: "q \<le> of_int n + 1 / 2 - 1 / 60000"
    unfolding q_def by simp
  have "\<bar>double_of q - q\<bar> \<le> 10000000000 / 2 ^ 52"
    by (rule double_of_close [OF qb]) simp
  moreover have "(10000000000 :: real) / 2 ^ 52 < 1 / 60000"
    by simp
  ultimately have upper: "double_of q < of_int n + 1 / 2"
    using qu by linarith
  have "\<lfloor>double_of q + 1 / 2\<rfloor> = n"
    using lower upper by (intro floor_unique) linarith+
  then show ?thesis
    unfolding Math_round_def q_def [symmetric] n_def by simp
qed

lemma double_times_1000_60: "double_times 1000 60 = 60000"
  using double_of_int [of 60000] by (simp add: double_times_def)

lemma double_minus_dates:
  fixes a b :: int
  assumes "\<bar>a - b\<bar> \<le> 600000000000000"
  shows "double_minus (of_int a) (of_int b) = of_int (a - b)"
proof -
  have "\<bar>a - b\<bar> < 2 ^ 53"
    using assms by simp
  then have "double_of (of_int (a - b)) = of_int (a - b)"
    by (rule double_of_int)
  then show ?thesis
    by (simp add: double_minus_def)
qed

lemma minutes_in_doubles:
  fixes a b :: int
  assumes "\<bar>a - b\<bar> \<le> 600000000000000"
  shows "Math_round (double_divide (double_minus (of_int a) (of_int b)) (double_times 1000 60))
           = Math_round (of_int (a - b) / 60000)"
  unfolding double_minus_dates [OF assms] double_times_1000_60 double_divide_def
  using assms by (rule Math_round_double_quotient)

lemma calculateDuration_unfold:
  assumes "sleepStart s = Some st" "sleepEnd s = Some en"
  shows "calculateDuration next_day s =
     (let d = Math_round (double_divide
                (double_minus (of_int (if en < st then next_day en else en)) (of_int st))
                (double_times 1000 60))
      in (d, s\<lparr>s_duration := d\<rparr>))"
  using assms by (simp add: calculateDuration_def Let_def)

lemma minutes_nonneg:
  fixes a b :: int
  assumes "b \<le> a"
  shows "0 \<le> Math_round (double_divide (double_minus (of_int a) (of_int b)) (double_times 1000 60))"
proof -
  have "0 \<le> double_minus (of_int a) (of_int b)"
    unfolding double_minus_def using assms by (intro double_of_nonneg) simp
  then have "0 \<le> double_minus (of_int a) (of_int b) / 60000"
    by simp
  then have "0 \<le> double_divide (double_minus (of_int a) (of_int b)) (double_times 1000 60)"
    unfolding double_times_1000_60 double_divide_def by (rule double_of_nonneg)
  then show ?thesis
    by (rule Math_round_nonneg)
qed

lemma minutes_examples:
  "Math_round (double_divide (double_minus 86400000 172800000) (double_times 1000 60)) = - 1440"
  "Math_round (double_divide (double_minus 1710084600000 1710086400000) (double_times 1000 60))
     = - 30"
  "Math_round (double_divide (double_minus 104400000 82800000) (double_times 1000 60)) = 360"
  "Math_round (double_divide (double_minus 108000000 82800000) (double_times 1000 60)) = 420"
  using minutes_in_doubles [of 86400000 172800000]
    minutes_in_doubles [of 1710084600000 1710086400000]
    minutes_in_doubles [of 104400000 82800000]
    minutes_in_doubles [of 108000000 82800000]
  by (simp_all add: Math_round_def)

text \<open>
  C4, counterexamples. A sleep end two days before the sleep start is moved one day only,
  and the duration is negative, -1440, in a time zone without clock changes. Where the
  local day after the end has 23 hours, an end 23 hours and a half before the start gives
  -30, and the start at 23:00 with the end at 06:00 gives 360, not 420.
\<close>

theorem calculateDuration_negative_counterexample:
  "fst (calculateDuration day_of_24_hours sleep_end_two_days_before) = - 1440
   \<and> s_duration (snd (calculateDuration day_of_24_hours sleep_end_two_days_before)) < 0
   \<and> fst (calculateDuration day_of_23_hours sleep_end_23h30_before) = - 30
   \<and> fst (calculateDuration day_of_23_hours sleep_23_to_06) = 360"
  by (simp add: calculateDuration_def sleep_end_two_days_before_def sleep_end_23h30_before_def
      sleep_23_to_06_def day_of_24_hours_def day_of_23_hours_def Let_def minutes_examples)

lemma calculateDuration_23_to_06:
  "fst (calculateDuration day_of_24_hours sleep_23_to_06) = 420"
  by (simp add: calculateDuration_def sleep_23_to_06_def day_of_24_hours_def Let_def
      minutes_examples)

text \<open>
  C4, as the program computes it. With a start and an end, the end is moved to the next
  local calendar day when it is before the start, and the duration is
  \<^verbatim>\<open>Math.round((end - start) / (1000 * 60))\<close> in doubles: an integer, and for a start and an
  end less than 19,000 years apart the integer nearest to the exact number of minutes of
  end - start, a tie going up. It is not negative when the start is not after the (moved)
  end; in particular when the day added has 24 hours and the end is no more than 24 hours
  before the start. Where the day added has 24 hours, a start at 23:00 and an end at 06:00
  give 420 minutes.
\<close>

theorem calculateDuration_minutes:
  "(sleepStart s = Some st \<and> sleepEnd s = Some en
      \<and> e' = (if en < st then next_day en else en) \<longrightarrow>
      fst (calculateDuration next_day s)
        = Math_round (double_divide (double_minus (of_int e') (of_int st)) (double_times 1000 60))
      \<and> snd (calculateDuration next_day s)
          = s\<lparr>s_duration := fst (calculateDuration next_day s)\<rparr>
      \<and> (\<exists>n::int. fst (calculateDuration next_day s) = of_int n)
      \<and> (\<bar>e' - st\<bar> \<le> 600000000000000 \<longrightarrow>
           fst (calculateDuration next_day s) = Math_round (of_int (e' - st) / 60000)
           \<and> (\<exists>n::int. fst (calculateDuration next_day s) = of_int n
                \<and> of_int n - 1 / 2 \<le> (of_int (e' - st) :: real) / 60000
                \<and> (of_int (e' - st) :: real) / 60000 < of_int n + 1 / 2))
      \<and> (st \<le> e' \<longrightarrow> 0 \<le> fst (calculateDuration next_day s))
      \<and> (next_day en = en + 86400000 \<and> st - 86400000 \<le> en \<longrightarrow>
           0 \<le> fst (calculateDuration next_day s)))
   \<and> fst (calculateDuration day_of_24_hours sleep_23_to_06) = 420"
proof -
  have imp: "fst (calculateDuration next_day s)
        = Math_round (double_divide (double_minus (of_int e') (of_int st)) (double_times 1000 60))
      \<and> snd (calculateDuration next_day s)
          = s\<lparr>s_duration := fst (calculateDuration next_day s)\<rparr>
      \<and> (\<exists>n::int. fst (calculateDuration next_day s) = of_int n)
      \<and> (\<bar>e' - st\<bar> \<le> 600000000000000 \<longrightarrow>
           fst (calculateDuration next_day s) = Math_round (of_int (e' - st) / 60000)
           \<and> (\<exists>n::int. fst (calculateDuration next_day s) = of_int n
                \<and> of_int n - 1 / 2 \<le> (of_int (e' - st) :: real) / 60000
                \<and> (of_int (e' - st) :: real) / 60000 < of_int n + 1 / 2))
      \<and> (st \<le> e' \<longrightarrow> 0 \<le> fst (calculateDuration next_day s))
      \<and> (next_day en = en + 86400000 \<and> st - 86400000 \<le> en \<longrightarrow>
           0 \<le> fst (calculateDuration next_day s))"
    if h: "sleepStart s = Some st \<and> sleepEnd s = Some en
      \<and> e' = (if en < st then next_day en else en)"
  proof -
    from h have a: "sleepStart s = Some st" "sleepEnd s = Some en"
      and e: "e' = (if en < st then next_day en else en)"
      by blast+
    let ?Q = "double_divide (double_minus (of_int e') (of_int st)) (double_times 1000 60)"
    have v: "fst (calculateDuration next_day s) = Math_round ?Q"
      unfolding calculateDuration_unfold [OF a] e by (simp add: Let_def)
    have r: "snd (calculateDuration next_day s)
               = s\<lparr>s_duration := fst (calculateDuration next_day s)\<rparr>"
      unfolding calculateDuration_unfold [OF a] by (simp add: Let_def)
    have i: "\<exists>n::int. fst (calculateDuration next_day s) = of_int n"
      unfolding v Math_round_def by blast
    have x: "fst (calculateDuration next_day s) = Math_round (of_int (e' - st) / 60000)
           \<and> (\<exists>n::int. fst (calculateDuration next_day s) = of_int n
                \<and> of_int n - 1 / 2 \<le> (of_int (e' - st) :: real) / 60000
                \<and> (of_int (e' - st) :: real) / 60000 < of_int n + 1 / 2)"
      if b: "\<bar>e' - st\<bar> \<le> 600000000000000"
    proof -
      define n where "n = \<lfloor>(of_int (e' - st) :: real) / 60000 + 1 / 2\<rfloor>"
      have m: "fst (calculateDuration next_day s) = Math_round (of_int (e' - st) / 60000)"
        unfolding v by (rule minutes_in_doubles [OF b])
      then have "fst (calculateDuration next_day s) = of_int n"
        unfolding Math_round_def n_def by simp
      moreover have "of_int n - 1 / 2 \<le> (of_int (e' - st) :: real) / 60000"
        "(of_int (e' - st) :: real) / 60000 < of_int n + 1 / 2"
        unfolding n_def by linarith+
      ultimately show ?thesis
        using m by blast
    qed
    have p: "0 \<le> fst (calculateDuration next_day s)" if "st \<le> e'"
      unfolding v using that by (rule minutes_nonneg)
    have p24: "0 \<le> fst (calculateDuration next_day s)"
      if "next_day en = en + 86400000 \<and> st - 86400000 \<le> en"
    proof -
      have "st \<le> e'" using that e by simp
      then show ?thesis by (rule p)
    qed
    show ?thesis
      using v r i x p p24 by blast
  qed
  show ?thesis
    using imp calculateDuration_23_to_06 by blast
qed

theorem calculateDuration_minutes_witness:
  "fst (calculateDuration day_of_24_hours sleep_23_to_06) = 420
   \<and> s_duration (snd (calculateDuration day_of_24_hours sleep_23_to_06)) = 420
   \<and> 0 \<le> fst (calculateDuration day_of_24_hours sleep_23_to_06)
   \<and> Math_round (of_int (21600000 + 86400000 - 82800000) / 60000) = 420"
proof -
  have a: "sleepStart sleep_23_to_06 = Some 82800000 \<and> sleepEnd sleep_23_to_06 = Some 21600000
      \<and> 21600000 + 86400000
          = (if (21600000::int) < 82800000 then day_of_24_hours 21600000 else 21600000)"
    by (simp add: sleep_23_to_06_def day_of_24_hours_def)
  have b: "\<bar>21600000 + 86400000 - 82800000 :: int\<bar> \<le> 600000000000000"
    by simp
  have c: "day_of_24_hours 21600000 = 21600000 + 86400000
      \<and> 82800000 - 86400000 \<le> (21600000 :: int)"
    by (simp add: day_of_24_hours_def)
  from calculateDuration_minutes
         [where s = sleep_23_to_06 and st = 82800000 and en = 21600000
            and e' = "21600000 + 86400000" and next_day = day_of_24_hours] a
  have "snd (calculateDuration day_of_24_hours sleep_23_to_06)
          = sleep_23_to_06\<lparr>s_duration := fst (calculateDuration day_of_24_hours sleep_23_to_06)\<rparr>"
    and "\<bar>21600000 + 86400000 - 82800000 :: int\<bar> \<le> 600000000000000 \<longrightarrow>
           fst (calculateDuration day_of_24_hours sleep_23_to_06)
             = Math_round (of_int (21600000 + 86400000 - 82800000) / 60000)"
    and "day_of_24_hours 21600000 = 21600000 + 86400000
           \<and> 82800000 - 86400000 \<le> (21600000 :: int) \<longrightarrow>
           0 \<le> fst (calculateDuration day_of_24_hours sleep_23_to_06)"
    and "fst (calculateDuration day_of_24_hours sleep_23_to_06) = 420"
    by blast+
  with b c show ?thesis
    by simp
qed

subsection \<open>C5: summaries of empty windows, averages\<close>

text \<open>Sums of whole numbers are exact in doubles as long as they stay below \<open>2 ^ 53\<close>.\<close>

lemma foldl_double_plus_exact:
  fixes ka :: int
  assumes "\<forall>x\<in>set xs. of_int \<lfloor>f x\<rfloor> = f x \<and> \<bar>f x\<bar> \<le> 100000"
    and "\<bar>ka\<bar> + 100000 * int (length xs) < 2 ^ 53"
  shows "foldl (\<lambda>sum x. double_plus sum (f x)) (of_int ka) xs
           = of_int ka + sum_list (map f xs)
         \<and> of_int \<lfloor>of_int ka + sum_list (map f xs)\<rfloor> = of_int ka + sum_list (map f xs)
         \<and> \<bar>of_int ka + sum_list (map f xs)\<bar> \<le> of_int \<bar>ka\<bar> + 100000 * real (length xs)"
  using assms
proof (induction xs arbitrary: ka)
  case Nil
  then show ?case by simp
next
  case (Cons x xs)
  define kx where "kx = \<lfloor>f x\<rfloor>"
  have fx: "f x = of_int kx" "\<bar>f x\<bar> \<le> 100000"
    using Cons.prems(1) by (auto simp add: kx_def)
  have "\<bar>real_of_int kx\<bar> \<le> 100000"
    using fx by simp
  then have kx: "\<bar>kx\<bar> \<le> 100000"
    by (metis of_int_abs of_int_le_iff of_int_numeral)
  have b: "\<bar>ka + kx\<bar> + 100000 * int (length xs) < 2 ^ 53"
    using Cons.prems(2) kx by simp
  then have "\<bar>ka + kx\<bar> < 2 ^ 53"
    by linarith
  then have "double_of (of_int (ka + kx)) = of_int (ka + kx)"
    by (rule double_of_int)
  then have step: "double_plus (of_int ka) (f x) = of_int (ka + kx)"
    by (simp add: double_plus_def fx(1))
  have rest: "\<forall>y\<in>set xs. of_int \<lfloor>f y\<rfloor> = f y \<and> \<bar>f y\<bar> \<le> 100000"
    using Cons.prems(1) by simp
  note ih = Cons.IH [OF rest b]
  have "\<bar>ka + kx\<bar> \<le> \<bar>ka\<bar> + 100000"
    using kx by linarith
  then have "real_of_int \<bar>ka + kx\<bar> \<le> real_of_int (\<bar>ka\<bar> + 100000)"
    by (simp only: of_int_le_iff)
  then have bound: "real_of_int \<bar>ka + kx\<bar> \<le> real_of_int \<bar>ka\<bar> + 100000"
    by simp
  have e: "of_int ka + sum_list (map f (x # xs)) = of_int (ka + kx) + sum_list (map f xs)"
    by (simp add: fx(1))
  have l: "100000 * real (length (x # xs)) = 100000 + 100000 * real (length xs)"
    by simp
  have f: "foldl (\<lambda>sum x. double_plus sum (f x)) (of_int ka) (x # xs)
             = foldl (\<lambda>sum x. double_plus sum (f x)) (of_int (ka + kx)) xs"
    by (simp only: foldl_Cons step)
  show ?case
    unfolding e l f using ih bound by linarith
qed

lemma reduce_sum_whole_numbers:
  assumes "whole_numbers f xs"
  shows "reduce_sum f xs = sum_list (map f xs)"
    and "of_int \<lfloor>sum_list (map f xs)\<rfloor> = sum_list (map f xs)"
    and "\<bar>sum_list (map f xs)\<bar> \<le> 100000000"
proof -
  have a: "\<forall>x\<in>set xs. of_int \<lfloor>f x\<rfloor> = f x \<and> \<bar>f x\<bar> \<le> 100000"
    using assms by (simp add: whole_numbers_def list_all_iff)
  have l: "length xs \<le> 1000"
    using assms by (simp add: whole_numbers_def)
  then have b: "\<bar>0::int\<bar> + 100000 * int (length xs) < 2 ^ 53"
    by simp
  note r = foldl_double_plus_exact [OF a b]
  show "reduce_sum f xs = sum_list (map f xs)"
    using r by (simp add: reduce_sum_def)
  show "of_int \<lfloor>sum_list (map f xs)\<rfloor> = sum_list (map f xs)"
    using r by simp
  have "real (length xs) \<le> 1000"
    using l by simp
  then show "\<bar>sum_list (map f xs)\<bar> \<le> 100000000"
    using r by simp
qed

text \<open>
  The quotient of a whole number by a count, rounded to a double, rounds to the same integer
  as the exact quotient.
\<close>

lemma Math_round_double_average:
  fixes d :: int and L :: nat
  assumes d: "\<bar>d\<bar> \<le> 100000000" and L: "0 < L" "L \<le> 1000"
  shows "Math_round (double_of (of_int d / of_nat L)) = Math_round (of_int d / of_nat L)"
proof -
  define q :: real where "q = of_int d / of_nat L"
  define n where "n = \<lfloor>q + 1 / 2\<rfloor>"
  have n: "of_int n - 1 / 2 \<le> q" "q < of_int n + 1 / 2"
    unfolding n_def by linarith+
  have Lr: "1 \<le> real L" "real L \<le> 1000"
    using L by simp_all
  have dr: "\<bar>real_of_int d\<bar> \<le> 100000000"
    using d by (metis of_int_abs of_int_le_iff of_int_numeral)
  have "\<bar>q\<bar> = \<bar>real_of_int d\<bar> / real L"
    unfolding q_def by simp
  also have "\<dots> \<le> \<bar>real_of_int d\<bar> / 1"
    using Lr by (intro divide_left_mono) simp_all
  finally have qb: "\<bar>q\<bar> \<le> 100000000"
    using dr by simp
  have "\<bar>real_of_int n\<bar> \<le> 100000001"
    using n qb by linarith
  then have "\<bar>real_of_int (2 * n - 1)\<bar> < 2 ^ 53"
    by simp
  then have "\<bar>2 * n - 1\<bar> < 2 ^ 53"
    by (metis of_int_abs of_int_less_iff of_int_numeral of_int_power)
  then have "double_of (of_int (2 * n - 1) / 2) = of_int (2 * n - 1) / 2"
    by (rule double_of_half_int)
  then have r: "double_of (of_int n - 1 / 2) = of_int n - 1 / 2"
    by (simp add: diff_divide_distrib)
  have "double_of (of_int n - 1 / 2) \<le> double_of q"
    using n(1) by (rule double_of_mono)
  then have lower: "of_int n - 1 / 2 \<le> double_of q"
    unfolding r .
  have "real_of_int d < real L * (of_int n + 1 / 2)"
    using n(2) Lr unfolding q_def by (simp add: pos_divide_less_eq mult.commute)
  then have "real_of_int (2 * d) < real_of_int (2 * int L * n + int L)"
    by (simp add: algebra_simps)
  then have "2 * d < 2 * int L * n + int L"
    by (simp only: of_int_less_iff)
  then have "2 * d \<le> 2 * int L * n + int L - 1"
    by simp
  then have "real_of_int (2 * d) \<le> real_of_int (2 * int L * n + int L - 1)"
    by (simp only: of_int_le_iff)
  then have "2 * real_of_int d \<le> real L * (2 * of_int n + 1) - 1"
    by (simp add: algebra_simps)
  then have "2 * (q * real L) \<le> real L * (2 * of_int n + 1) - 1"
    unfolding q_def using Lr by simp
  then have "real L * (2 * q) \<le> real L * (2 * of_int n + 1 - 1 / real L)"
    using Lr by (simp add: algebra_simps)
  then have "2 * q \<le> 2 * of_int n + 1 - 1 / real L"
    using Lr by (simp only: mult_le_cancel_left_pos) 
  moreover have "1 / 1000 \<le> 1 / real L"
    using Lr by (intro divide_left_mono) simp_all
  ultimately have qu: "q \<le> of_int n + 1 / 2 - 1 / 2000"
    by linarith
  have "\<bar>double_of q - q\<bar> \<le> 100000000 / 2 ^ 52"
    by (rule double_of_close [OF qb]) simp
  moreover have "(100000000 :: real) / 2 ^ 52 < 1 / 2000"
    by simp
  ultimately have upper: "double_of q < of_int n + 1 / 2"
    using qu by linarith
  have "\<lfloor>double_of q + 1 / 2\<rfloor> = n"
    using lower upper by (intro floor_unique) linarith+
  then show ?thesis
    unfolding Math_round_def q_def [symmetric] n_def by simp
qed

lemma average_whole_numbers:
  assumes "whole_numbers f xs" "xs \<noteq> []"
  shows "Math_round (double_divide (reduce_sum f xs) (of_nat (length xs)))
           = Math_round (sum_list (map f xs) / of_nat (length xs))"
proof -
  define d where "d = \<lfloor>sum_list (map f xs)\<rfloor>"
  have s: "sum_list (map f xs) = of_int d"
    unfolding d_def using reduce_sum_whole_numbers(2) [OF assms(1)] by auto
  have "\<bar>real_of_int d\<bar> \<le> 100000000"
    using reduce_sum_whole_numbers(3) [OF assms(1)] unfolding s .
  then have d: "\<bar>d\<bar> \<le> 100000000"
    by (metis of_int_abs of_int_le_iff of_int_numeral)
  have L: "0 < length xs" "length xs \<le> 1000"
    using assms by (simp_all add: whole_numbers_def)
  show ?thesis
    unfolding reduce_sum_whole_numbers(1) [OF assms(1)] double_divide_def s
    by (rule Math_round_double_average [OF d L])
qed

lemma Math_round_nearest_integer: "nearest_integer q (Math_round q)"
  unfolding nearest_integer_def
  using Math_round_characterised [of q q 0] by auto

lemma getQualityScore_whole: "of_int \<lfloor>getQualityScore s\<rfloor> = getQualityScore s
    \<and> \<bar>getQualityScore s\<bar> \<le> 100000"
  by (auto simp add: getQualityScore_def qualityScores_def split: option.splits if_splits)

lemma getQualityScore_whole_numbers: "length ss \<le> 1000 \<Longrightarrow> whole_numbers getQualityScore ss"
  by (simp add: whole_numbers_def list_all_iff getQualityScore_whole)


lemma fetch_empty:
  "\<forall>w\<in>set wcoll. \<not> (w_user w = uid \<and> lo \<le> w_date w \<and> w_date w \<le> hi)
     \<Longrightarrow> fetch_dailyWorkouts wcoll uid lo hi = []"
  "\<forall>m\<in>set mcoll. \<not> (m_user m = uid \<and> lo \<le> m_date m \<and> m_date m \<le> hi)
     \<Longrightarrow> fetch_dailyMeals mcoll uid lo hi = []"
  "\<forall>s\<in>set scoll. \<not> (s_user s = uid \<and> lo \<le> s_date s \<and> s_date s \<le> hi)
     \<Longrightarrow> fetch_dailySleep scoll uid lo hi = []"
  "\<forall>w\<in>set wcoll. \<not> (w_user w = uid \<and> lo \<le> w_date w)
     \<Longrightarrow> fetch_weeklyWorkouts wcoll uid lo = []"
  "\<forall>m\<in>set mcoll. \<not> (m_user m = uid \<and> lo \<le> m_date m)
     \<Longrightarrow> fetch_weeklyMeals mcoll uid lo = []"
  "\<forall>s\<in>set scoll. \<not> (s_user s = uid \<and> lo \<le> s_date s)
     \<Longrightarrow> fetch_weeklySleep scoll uid lo = []"
  by (simp_all add: fetch_dailyWorkouts_def fetch_dailyMeals_def fetch_dailySleep_def
      fetch_weeklyWorkouts_def fetch_weeklyMeals_def fetch_weeklySleep_def
      sort_date_desc_def filter_empty_conv)

lemma reduce_sum_Nil: "reduce_sum f [] = 0"
  by (simp add: reduce_sum_def)

lemma dailySummary_kind_empty:
  "workouts (dailySummary [] ms ss) = workouts zero_summary"
  "meals (dailySummary ws [] ss) = meals zero_summary"
  "sleep (dailySummary ws ms []) = sleep zero_summary"
  by (simp_all add: dailySummary_def zero_summary_def reduce_sum_Nil)

lemma weeklySummary_dailySummary: "weeklySummary ws ms ss = dailySummary ws ms ss"
  by (simp add: weeklySummary_def dailySummary_def)

lemma dailySummary_averages:
  "ws_averageDuration (workouts (dailySummary ws ms ss))
     = (if length ws > 0
        then Math_round (double_divide (reduce_sum w_duration ws) (of_nat (length ws))) else 0)"
  "ss_averageDuration (sleep (dailySummary ws ms ss))
     = (if length ss > 0
        then Math_round (double_divide (reduce_sum s_duration ss) (of_nat (length ss))) else 0)"
  "ss_averageQuality (sleep (dailySummary ws ms ss))
     = (if length ss > 0
        then Math_round (double_divide (reduce_sum getQualityScore ss) (of_nat (length ss)))
        else 0)"
  "ws_totalDuration (workouts (dailySummary ws ms ss)) = reduce_sum w_duration ws"
  "ss_totalDuration (sleep (dailySummary ws ms ss)) = reduce_sum s_duration ss"
  "ws_count (workouts (dailySummary ws ms ss)) = length ws"
  by (simp_all add: dailySummary_def)

lemma dailySummary_whole_numbers:
  assumes "whole_numbers w_duration ws" "ws \<noteq> []"
  shows "ws_totalDuration (workouts (dailySummary ws ms ss)) = sum_list (map w_duration ws)"
    and "ws_averageDuration (workouts (dailySummary ws ms ss))
           = Math_round (sum_list (map w_duration ws) / of_nat (length ws))"
proof -
  show "ws_totalDuration (workouts (dailySummary ws ms ss)) = sum_list (map w_duration ws)"
    unfolding dailySummary_averages by (rule reduce_sum_whole_numbers(1) [OF assms(1)])
  have "ws_averageDuration (workouts (dailySummary ws ms ss))
          = Math_round (double_divide (reduce_sum w_duration ws) (of_nat (length ws)))"
    using assms(2) by (simp add: dailySummary_averages)
  then show "ws_averageDuration (workouts (dailySummary ws ms ss))
           = Math_round (sum_list (map w_duration ws) / of_nat (length ws))"
    unfolding average_whole_numbers [OF assms] .
qed

lemma dailySummary_whole_numbers_sleep:
  assumes "whole_numbers s_duration ss" "ss \<noteq> []"
  shows "ss_totalDuration (sleep (dailySummary ws ms ss)) = sum_list (map s_duration ss)"
    and "ss_averageDuration (sleep (dailySummary ws ms ss))
           = Math_round (sum_list (map s_duration ss) / of_nat (length ss))"
proof -
  show "ss_totalDuration (sleep (dailySummary ws ms ss)) = sum_list (map s_duration ss)"
    unfolding dailySummary_averages by (rule reduce_sum_whole_numbers(1) [OF assms(1)])
  have "ss_averageDuration (sleep (dailySummary ws ms ss))
          = Math_round (double_divide (reduce_sum s_duration ss) (of_nat (length ss)))"
    using assms(2) by (simp add: dailySummary_averages)
  then show "ss_averageDuration (sleep (dailySummary ws ms ss))
           = Math_round (sum_list (map s_duration ss) / of_nat (length ss))"
    unfolding average_whole_numbers [OF assms] .
qed

lemma dailySummary_quality:
  assumes "length ss \<le> 1000" "ss \<noteq> []"
  shows "ss_averageQuality (sleep (dailySummary ws ms ss))
           = Math_round (sum_list (map getQualityScore ss) / of_nat (length ss))"
proof -
  have "ss_averageQuality (sleep (dailySummary ws ms ss))
          = Math_round (double_divide (reduce_sum getQualityScore ss) (of_nat (length ss)))"
    using assms(2) by (simp add: dailySummary_averages)
  then show ?thesis
    unfolding average_whole_numbers [OF getQualityScore_whole_numbers [OF assms(1)] assms(2)] .
qed

lemma two_workouts_whole: "whole_numbers w_duration two_workouts_30_45"
  by (simp add: whole_numbers_def two_workouts_30_45_def workout_of_duration_def)

lemma two_workouts_summary:
  "ws_count (workouts (dailySummary two_workouts_30_45 [] [])) = 2"
  "ws_totalDuration (workouts (dailySummary two_workouts_30_45 [] [])) = 75"
  "ws_averageDuration (workouts (dailySummary two_workouts_30_45 [] [])) = 38"
proof -
  have ne: "two_workouts_30_45 \<noteq> []"
    by (simp add: two_workouts_30_45_def)
  have s: "sum_list (map w_duration two_workouts_30_45) = 75"
    by (simp add: two_workouts_30_45_def workout_of_duration_def)
  have l: "length two_workouts_30_45 = 2"
    by (simp add: two_workouts_30_45_def)
  show "ws_count (workouts (dailySummary two_workouts_30_45 [] [])) = 2"
    by (simp add: dailySummary_averages l)
  show "ws_totalDuration (workouts (dailySummary two_workouts_30_45 [] [])) = 75"
    unfolding dailySummary_whole_numbers(1) [OF two_workouts_whole ne] by (rule s)
  show "ws_averageDuration (workouts (dailySummary two_workouts_30_45 [] [])) = 38"
    unfolding dailySummary_whole_numbers(2) [OF two_workouts_whole ne] s l
    by (simp add: Math_round_def)
qed

text \<open>
  C5, the claim as stated fails: the averages of the dashboard summaries are rounded to an
  integer, so they are not sum / count. Two workouts of 30 and 45 minutes have the sum 75
  and the count 2, and the average duration 38, not 37.5.
\<close>

theorem dailySummary_average_counterexample:
  "ws_count (workouts (dailySummary two_workouts_30_45 [] [])) = 2
   \<and> ws_totalDuration (workouts (dailySummary two_workouts_30_45 [] [])) = 75
   \<and> ws_averageDuration (workouts (dailySummary two_workouts_30_45 [] [])) = 38
   \<and> ws_averageDuration (workouts (dailySummary two_workouts_30_45 [] []))
       \<noteq> ws_totalDuration (workouts (dailySummary two_workouts_30_45 [] []))
           / of_nat (ws_count (workouts (dailySummary two_workouts_30_45 [] [])))"
  by (simp add: two_workouts_summary)

text \<open>
  C5, as the dashboard computes its daily and weekly summaries. When no record of a kind
  matches the query of the day or of the week, the summary of that kind has all its numeric
  fields zero. The weekly summary is the same function of its record sets as the daily one.
  Every average is 0 for no record, and otherwise \<^verbatim>\<open>Math.round\<close> of the sum divided by the
  count, in doubles (for durations of magnitude up to \<open>10 ^ 100\<close>): for at most 1,000 records with whole numbers of minutes (of magnitude up
  to 100,000) the total duration is the exact sum and the average duration is the integer
  nearest to sum / count, a tie going up, and so is the average quality for at most 1,000
  sleep records. No average divides by zero. Workouts of 30 and 45 minutes have the average
  duration 38.
\<close>

theorem summaries_zero_when_empty:
  "((\<forall>w\<in>set wcoll. \<not> (w_user w = uid \<and> lo \<le> w_date w \<and> w_date w \<le> hi)) \<longrightarrow>
       workouts (dailySummary (fetch_dailyWorkouts wcoll uid lo hi) ms ss) = workouts zero_summary)
   \<and> ((\<forall>m\<in>set mcoll. \<not> (m_user m = uid \<and> lo \<le> m_date m \<and> m_date m \<le> hi)) \<longrightarrow>
       meals (dailySummary ws (fetch_dailyMeals mcoll uid lo hi) ss) = meals zero_summary)
   \<and> ((\<forall>s\<in>set scoll. \<not> (s_user s = uid \<and> lo \<le> s_date s \<and> s_date s \<le> hi)) \<longrightarrow>
       sleep (dailySummary ws ms (fetch_dailySleep scoll uid lo hi)) = sleep zero_summary)
   \<and> ((\<forall>w\<in>set wcoll. \<not> (w_user w = uid \<and> lo \<le> w_date w)) \<longrightarrow>
       workouts (weeklySummary (fetch_weeklyWorkouts wcoll uid lo) ms ss) = workouts zero_summary)
   \<and> ((\<forall>m\<in>set mcoll. \<not> (m_user m = uid \<and> lo \<le> m_date m)) \<longrightarrow>
       meals (weeklySummary ws (fetch_weeklyMeals mcoll uid lo) ss) = meals zero_summary)
   \<and> ((\<forall>s\<in>set scoll. \<not> (s_user s = uid \<and> lo \<le> s_date s)) \<longrightarrow>
       sleep (weeklySummary ws ms (fetch_weeklySleep scoll uid lo)) = sleep zero_summary)
   \<and> weeklySummary ws ms ss = dailySummary ws ms ss
   \<and> (numbers_in_range w_duration ws \<longrightarrow>
        ws_averageDuration (workouts (dailySummary ws ms ss))
          = (if length ws > 0
             then Math_round (double_divide (reduce_sum w_duration ws) (of_nat (length ws)))
             else 0))
   \<and> (numbers_in_range s_duration ss \<longrightarrow>
        ss_averageDuration (sleep (dailySummary ws ms ss))
          = (if length ss > 0
             then Math_round (double_divide (reduce_sum s_duration ss) (of_nat (length ss)))
             else 0))
   \<and> ss_averageQuality (sleep (dailySummary ws ms ss))
       = (if length ss > 0
          then Math_round (double_divide (reduce_sum getQualityScore ss) (of_nat (length ss)))
          else 0)
   \<and> (whole_numbers w_duration ws \<and> ws \<noteq> [] \<longrightarrow>
        ws_totalDuration (workouts (dailySummary ws ms ss)) = sum_list (map w_duration ws)
        \<and> nearest_integer (sum_list (map w_duration ws) / of_nat (length ws))
            (ws_averageDuration (workouts (dailySummary ws ms ss))))
   \<and> (whole_numbers s_duration ss \<and> ss \<noteq> [] \<longrightarrow>
        ss_totalDuration (sleep (dailySummary ws ms ss)) = sum_list (map s_duration ss)
        \<and> nearest_integer (sum_list (map s_duration ss) / of_nat (length ss))
            (ss_averageDuration (sleep (dailySummary ws ms ss))))
   \<and> (length ss \<le> 1000 \<and> ss \<noteq> [] \<longrightarrow>
        nearest_integer (sum_list (map getQualityScore ss) / of_nat (length ss))
          (ss_averageQuality (sleep (dailySummary ws ms ss))))
   \<and> ws_averageDuration (workouts (dailySummary two_workouts_30_45 [] [])) = 38"
proof -
  have daily:
    "(\<forall>w\<in>set wcoll. \<not> (w_user w = uid \<and> lo \<le> w_date w \<and> w_date w \<le> hi)) \<longrightarrow>
       workouts (dailySummary (fetch_dailyWorkouts wcoll uid lo hi) ms ss) = workouts zero_summary"
    "(\<forall>m\<in>set mcoll. \<not> (m_user m = uid \<and> lo \<le> m_date m \<and> m_date m \<le> hi)) \<longrightarrow>
       meals (dailySummary ws (fetch_dailyMeals mcoll uid lo hi) ss) = meals zero_summary"
    "(\<forall>s\<in>set scoll. \<not> (s_user s = uid \<and> lo \<le> s_date s \<and> s_date s \<le> hi)) \<longrightarrow>
       sleep (dailySummary ws ms (fetch_dailySleep scoll uid lo hi)) = sleep zero_summary"
    by (simp_all add: fetch_empty dailySummary_kind_empty)
  have weekly:
    "(\<forall>w\<in>set wcoll. \<not> (w_user w = uid \<and> lo \<le> w_date w)) \<longrightarrow>
       workouts (weeklySummary (fetch_weeklyWorkouts wcoll uid lo) ms ss) = workouts zero_summary"
    "(\<forall>m\<in>set mcoll. \<not> (m_user m = uid \<and> lo \<le> m_date m)) \<longrightarrow>
       meals (weeklySummary ws (fetch_weeklyMeals mcoll uid lo) ss) = meals zero_summary"
    "(\<forall>s\<in>set scoll. \<not> (s_user s = uid \<and> lo \<le> s_date s)) \<longrightarrow>
       sleep (weeklySummary ws ms (fetch_weeklySleep scoll uid lo)) = sleep zero_summary"
    by (simp_all add: fetch_empty weeklySummary_dailySummary dailySummary_kind_empty)
  have w: "ws_totalDuration (workouts (dailySummary ws ms ss)) = sum_list (map w_duration ws)
        \<and> nearest_integer (sum_list (map w_duration ws) / of_nat (length ws))
            (ws_averageDuration (workouts (dailySummary ws ms ss)))"
    if "whole_numbers w_duration ws \<and> ws \<noteq> []"
  proof -
    from that have a: "whole_numbers w_duration ws" and ne: "ws \<noteq> []" by blast+
    show ?thesis
      unfolding dailySummary_whole_numbers [OF a ne]
      by (simp add: Math_round_nearest_integer)
  qed
  have s: "ss_totalDuration (sleep (dailySummary ws ms ss)) = sum_list (map s_duration ss)
        \<and> nearest_integer (sum_list (map s_duration ss) / of_nat (length ss))
            (ss_averageDuration (sleep (dailySummary ws ms ss)))"
    if "whole_numbers s_duration ss \<and> ss \<noteq> []"
  proof -
    from that have a: "whole_numbers s_duration ss" and ne: "ss \<noteq> []" by blast+
    show ?thesis
      unfolding dailySummary_whole_numbers_sleep [OF a ne]
      by (simp add: Math_round_nearest_integer)
  qed
  have q: "nearest_integer (sum_list (map getQualityScore ss) / of_nat (length ss))
          (ss_averageQuality (sleep (dailySummary ws ms ss)))"
    if "length ss \<le> 1000 \<and> ss \<noteq> []"
  proof -
    from that have a: "length ss \<le> 1000" and ne: "ss \<noteq> []" by blast+
    show ?thesis
      unfolding dailySummary_quality [OF a ne]
      by (rule Math_round_nearest_integer)
  qed
  show ?thesis
    using daily weekly weeklySummary_dailySummary [of ws ms ss]
      dailySummary_averages(1-3) [of ws ms ss] w s q two_workouts_summary(3)
    by blast
qed

theorem summaries_zero_when_empty_witness:
  "workouts (dailySummary (fetch_dailyWorkouts two_workouts_30_45 1 6000 7000) [] [])
     = \<lparr>ws_count = 0, ws_totalDuration = 0, ws_totalCalories = 0, ws_averageDuration = 0\<rparr>
   \<and> workouts (weeklySummary (fetch_weeklyWorkouts two_workouts_30_45 1 6000) [] [])
     = \<lparr>ws_count = 0, ws_totalDuration = 0, ws_totalCalories = 0, ws_averageDuration = 0\<rparr>
   \<and> whole_numbers w_duration two_workouts_30_45
   \<and> ws_totalDuration (workouts (dailySummary two_workouts_30_45 [] [])) = 75
   \<and> nearest_integer (75 / 2) (ws_averageDuration (workouts (dailySummary two_workouts_30_45 [] [])))"
proof -
  have out: "\<forall>w\<in>set two_workouts_30_45. \<not> (w_user w = 1 \<and> 6000 \<le> w_date w \<and> w_date w \<le> 7000)"
    "\<forall>w\<in>set two_workouts_30_45. \<not> (w_user w = 1 \<and> 6000 \<le> w_date w)"
    by (simp_all add: two_workouts_30_45_def workout_of_duration_def)
  have ne: "whole_numbers w_duration two_workouts_30_45 \<and> two_workouts_30_45 \<noteq> []"
    by (simp add: whole_numbers_def two_workouts_30_45_def workout_of_duration_def)
  have v: "sum_list (map w_duration two_workouts_30_45) = 75"
    "real (length two_workouts_30_45) = 2"
    by (simp_all add: two_workouts_30_45_def workout_of_duration_def)
  have z: "workouts zero_summary
     = \<lparr>ws_count = 0, ws_totalDuration = 0, ws_totalCalories = 0, ws_averageDuration = 0\<rparr>"
    by (simp add: zero_summary_def)
  from summaries_zero_when_empty
         [where wcoll = two_workouts_30_45 and uid = 1 and lo = 6000 and hi = 7000
            and ms = "[]" and ss = "[]" and ws = two_workouts_30_45]
    out ne
  have "workouts (dailySummary (fetch_dailyWorkouts two_workouts_30_45 1 6000 7000) [] [])
          = workouts zero_summary"
    and "workouts (weeklySummary (fetch_weeklyWorkouts two_workouts_30_45 1 6000) [] [])
          = workouts zero_summary"
    and "ws_totalDuration (workouts (dailySummary two_workouts_30_45 [] []))
          = sum_list (map w_duration two_workouts_30_45)"
    and "nearest_integer
           (sum_list (map w_duration two_workouts_30_45) / of_nat (length two_workouts_30_45))
           (ws_averageDuration (workouts (dailySummary two_workouts_30_45 [] [])))"
    by blast+
  then show ?thesis
    using ne unfolding v z by simp
qed

subsection \<open>C6: goal progress when the starting weight is the target weight\<close>

text \<open>
  C6: with the profile weight equal to the target weight (70 and 70) the divisor is zero
  and nothing in \<^verbatim>\<open>goalProgress\<close> tests for it. Without progress records the current weight
  is the profile weight and the value is 0/0, \<^verbatim>\<open>NaN\<close>; with a latest record of 68 kg it is
  \<^verbatim>\<open>Infinity\<close>. Neither is the 0 of the claim.
\<close>

theorem goalProgress_start_equals_target:
  "goalProgress user_70_target_70 (progressSummary user_70_target_70 [] []) = NaN
   \<and> goalProgress user_70_target_70
        (progressSummary user_70_target_70 [] [progress_at 1000 68]) = PosInfinity
   \<and> goalProgress user_70_target_70 (progressSummary user_70_target_70 [] []) \<noteq> Finite 0"
  by (simp add: goalProgress_def progressSummary_def user_70_target_70_def js_divide_def
      progress_at_def)

subsection \<open>The fetched progress records\<close>

lemma sort_date_desc_sorted:
  "sorted_wrt (\<lambda>a b. d b \<le> d a) (sort_date_desc d xs)"
proof -
  have "sorted (map (\<lambda>x. - d x) (sort_date_desc d xs))"
    unfolding sort_date_desc_def by (rule sorted_sort_key)
  then show ?thesis
    by (simp add: sorted_map sorted_wrt_iff_nth_less)
qed

lemma sort_date_desc_set: "set (sort_date_desc d xs) = set xs"
  by (simp add: sort_date_desc_def)

lemma sort_date_desc_length: "length (sort_date_desc d xs) = length xs"
  by (simp add: sort_date_desc_def)

lemma sorted_wrt_hd_max:
  fixes d :: "'a \<Rightarrow> Date"
  assumes "sorted_wrt (\<lambda>a b. d b \<le> d a) l" "x \<in> set l"
  shows "d x \<le> d (hd l)"
  using assms by (cases l) auto

lemma progress_in_window_set:
  "set (progress_in_window coll uid now)
     = {p \<in> set coll. p_user p = uid \<and> now - 2592000000 \<le> p_date p}"
  by (auto simp: progress_in_window_def sort_date_desc_set)

lemma progress_in_window_sorted:
  "sorted_wrt (\<lambda>a b. p_date b \<le> p_date a) (progress_in_window coll uid now)"
  unfolding progress_in_window_def by (rule sort_date_desc_sorted)

lemma sorted_wrt_take: "sorted_wrt P xs \<Longrightarrow> sorted_wrt P (take n xs)"
  by (metis append_take_drop_id sorted_wrt_append)

lemma two_progress_window:
  "progress_in_window two_progress_records 1 3000 = [progress_at 2000 79, progress_at 1000 80]"
  by (simp add: progress_in_window_def two_progress_records_def progress_at_def
      sort_date_desc_def)

lemma two_progress_recent:
  "fetch_recentProgress two_progress_records 1 3000 = [progress_at 2000 79, progress_at 1000 80]"
  unfolding fetch_recentProgress_def two_progress_window by simp


subsection \<open>C7: current BMI\<close>

text \<open>The computations of the examples, operation by operation.\<close>

lemma bmi_70_175_1: "double_divide 175 100 = 7 / 4"
  unfolding double_divide_def
  by (subst double_of_eval [where a = 52]) (simp_all add: round_half_even_def)

lemma bmi_70_175_2: "double_times (7 / 4) (7 / 4) = 49 / 16"
  unfolding double_times_def
  by (subst double_of_eval [where a = 51]) (simp_all add: round_half_even_def)

lemma bmi_70_175_3: "double_divide 70 (49 / 16) = 6433713753386423 / 281474976710656"
  unfolding double_divide_def
  by (subst double_of_eval [where a = 48]) (simp_all add: round_half_even_def)

lemma bmi_79_175_1: "double_divide 175 100 = 7 / 4"
  unfolding double_divide_def
  by (subst double_of_eval [where a = 52]) (simp_all add: round_half_even_def)

lemma bmi_79_175_2: "double_times (7 / 4) (7 / 4) = 49 / 16"
  unfolding double_times_def
  by (subst double_of_eval [where a = 51]) (simp_all add: round_half_even_def)

lemma bmi_79_175_3: "double_divide 79 (49 / 16) = 7260905521678963 / 281474976710656"
  unfolding double_divide_def
  by (subst double_of_eval [where a = 48]) (simp_all add: round_half_even_def)

lemma bmi_80_160_1: "double_divide 160 100 = 3602879701896397 / 2251799813685248"
  unfolding double_divide_def
  by (subst double_of_eval [where a = 52]) (simp_all add: round_half_even_def)

lemma bmi_80_160_2: "double_times (3602879701896397 / 2251799813685248) (3602879701896397 / 2251799813685248) = 1441151880758559 / 562949953421312"
  unfolding double_times_def
  by (subst double_of_eval [where a = 51]) (simp_all add: round_half_even_def)

lemma bmi_80_160_3: "double_divide 80 (1441151880758559 / 562949953421312) = 4398046511103999 / 140737488355328"
  unfolding double_divide_def
  by (subst double_of_eval [where a = 48]) (simp_all add: round_half_even_def)

lemmas bmi_70_175 = bmi_70_175_1 bmi_70_175_2 bmi_70_175_3

lemmas bmi_79_175 = bmi_79_175_1 bmi_79_175_2 bmi_79_175_3

lemmas bmi_80_160 = bmi_80_160_1 bmi_80_160_2 bmi_80_160_3

lemma toFixed1_nearest:
  "\<exists>n::int. toFixed1 x = of_int n / 10 \<and> \<bar>of_int n / 10 - x\<bar> \<le> 1 / 20"
proof (cases "x < 0")
  case True
  define m where "m = \<lfloor>(- x) * 10 + 1 / 2\<rfloor>"
  have "of_int m - 1 / 2 \<le> (- x) * 10" "(- x) * 10 < of_int m + 1 / 2"
    unfolding m_def by linarith+
  then have "\<bar>- (of_int m / 10) - x\<bar> \<le> 1 / 20"
    by linarith
  then have "\<bar>of_int (- m) / 10 - x\<bar> \<le> 1 / 20"
    by simp
  moreover have "toFixed1 x = of_int (- m) / 10"
    using True by (simp add: toFixed1_def m_def)
  ultimately show ?thesis
    by blast
next
  case False
  define m where "m = \<lfloor>x * 10 + 1 / 2\<rfloor>"
  have "of_int m - 1 / 2 \<le> x * 10" "x * 10 < of_int m + 1 / 2"
    unfolding m_def by linarith+
  then have "\<bar>of_int m / 10 - x\<bar> \<le> 1 / 20"
    by linarith
  moreover have "toFixed1 x = of_int m / 10"
    using False by (simp add: toFixed1_def m_def)
  ultimately show ?thesis
    by blast
qed

lemma user_calculateBMI_70_175: "user_calculateBMI user_70_target_70 = 229 / 10"
  by (simp add: user_calculateBMI_def user_70_target_70_def Let_def bmi_70_175 toFixed1_def)

lemma currentBMI_79_175:
  "currentBMI user_70_target_70 (fetch_recentProgress two_progress_records 1 3000)
     = Some (258 / 10)"
  unfolding two_progress_recent
  by (simp add: currentBMI_def user_70_target_70_def progress_at_def Let_def bmi_79_175
      toFixed1_def)

lemma currentBMI_80_160:
  "currentBMI user_80_height_160 (fetch_recentProgress [progress_at 1000 80] 1 3000)
     = Some (312 / 10)"
  by (simp add: currentBMI_def user_80_height_160_def progress_at_def Let_def bmi_80_160
      toFixed1_def fetch_recentProgress_def progress_in_window_def sort_date_desc_def)

text \<open>
  C7, the claim as stated fails: without progress records \<^verbatim>\<open>currentBMI\<close> stays the
  \<^verbatim>\<open>null\<close> it was initialised with. It is not the BMI of the profile weight, 22.9 for the
  user of 70 kg and 175 cm.
\<close>

theorem currentBMI_no_fallback_counterexample:
  "fetch_recentProgress [] 1 3000 = []
   \<and> currentBMI user_70_target_70 (fetch_recentProgress [] 1 3000) = None
   \<and> user_calculateBMI user_70_target_70 = 229 / 10
   \<and> currentBMI user_70_target_70 (fetch_recentProgress [] 1 3000)
       \<noteq> Some (user_calculateBMI user_70_target_70)"
  by (simp add: currentBMI_def fetch_recentProgress_def progress_in_window_def
      sort_date_desc_def user_calculateBMI_70_175)

text \<open>
  C7, amended: when the user has a progress record in the last 30 days, \<^verbatim>\<open>currentBMI\<close> is
  the BMI of the weight of the latest such record and the profile height (both in the ranges
  of the schemas), weight / (height / 100)^2 evaluated in doubles and written with one decimal
  by \<^verbatim>\<open>toFixed(1)\<close>, a number of tenths within 0.05 of that double; when there is none, it
  is \<^verbatim>\<open>null\<close>. A latest record of 79 kg and the height 175 cm give 25.8; 80 kg and 160 cm
  give 31.2, the quotient in doubles being 31.249999999999993.
\<close>

theorem currentBMI_most_recent:
  "(progress_in_window coll uid now \<noteq> [] \<and> 100 \<le> height u \<and> height u \<le> 250
      \<and> list_all (\<lambda>p. 20 \<le> p_weight p \<and> p_weight p \<le> 300) coll \<longrightarrow>
      currentBMI u (fetch_recentProgress coll uid now)
        = Some (toFixed1 (double_divide (p_weight (hd (progress_in_window coll uid now)))
                  (double_times (double_divide (height u) 100) (double_divide (height u) 100))))
      \<and> (\<exists>n::int. currentBMI u (fetch_recentProgress coll uid now) = Some (of_int n / 10)
            \<and> \<bar>of_int n / 10
                 - double_divide (p_weight (hd (progress_in_window coll uid now)))
                     (double_times (double_divide (height u) 100)
                        (double_divide (height u) 100))\<bar> \<le> 1 / 20)
      \<and> hd (progress_in_window coll uid now) \<in> set coll
      \<and> p_user (hd (progress_in_window coll uid now)) = uid
      \<and> now - 2592000000 \<le> p_date (hd (progress_in_window coll uid now))
      \<and> (\<forall>p\<in>set coll. p_user p = uid \<and> now - 2592000000 \<le> p_date p \<longrightarrow>
            p_date p \<le> p_date (hd (progress_in_window coll uid now))))
   \<and> (progress_in_window coll uid now = [] \<longrightarrow>
        currentBMI u (fetch_recentProgress coll uid now) = None)
   \<and> currentBMI user_70_target_70 (fetch_recentProgress two_progress_records 1 3000)
        = Some (258 / 10)
   \<and> currentBMI user_80_height_160 (fetch_recentProgress [progress_at 1000 80] 1 3000)
        = Some (312 / 10)"
proof (intro conjI impI)
  assume "progress_in_window coll uid now \<noteq> [] \<and> 100 \<le> height u \<and> height u \<le> 250
      \<and> list_all (\<lambda>p. 20 \<le> p_weight p \<and> p_weight p \<le> 300) coll"
  then have ne: "progress_in_window coll uid now \<noteq> []" by simp
  let ?w = "progress_in_window coll uid now"
  let ?B = "double_divide (p_weight (hd ?w))
              (double_times (double_divide (height u) 100) (double_divide (height u) 100))"
  have hd: "fetch_recentProgress coll uid now ! 0 = hd ?w"
    using ne by (cases ?w) (simp_all add: fetch_recentProgress_def)
  have len: "length (fetch_recentProgress coll uid now) > 0"
    using ne by (simp add: fetch_recentProgress_def)
  show v: "currentBMI u (fetch_recentProgress coll uid now) = Some (toFixed1 ?B)"
    using len hd by (simp add: currentBMI_def Let_def)
  show "\<exists>n::int. currentBMI u (fetch_recentProgress coll uid now) = Some (of_int n / 10)
            \<and> \<bar>of_int n / 10 - ?B\<bar> \<le> 1 / 20"
    unfolding v using toFixed1_nearest [of ?B] by simp
  have mem: "hd ?w \<in> set ?w" using ne by simp
  then show "hd ?w \<in> set coll" "p_user (hd ?w) = uid" "now - 2592000000 \<le> p_date (hd ?w)"
    unfolding progress_in_window_set by simp_all
  show "\<forall>p\<in>set coll. p_user p = uid \<and> now - 2592000000 \<le> p_date p \<longrightarrow> p_date p \<le> p_date (hd ?w)"
  proof (intro ballI impI)
    fix p assume "p \<in> set coll" "p_user p = uid \<and> now - 2592000000 \<le> p_date p"
    then have "p \<in> set ?w" unfolding progress_in_window_set by simp
    then show "p_date p \<le> p_date (hd ?w)"
      by (rule sorted_wrt_hd_max [OF progress_in_window_sorted])
  qed
next
  assume "progress_in_window coll uid now = []"
  then show "currentBMI u (fetch_recentProgress coll uid now) = None"
    by (simp add: currentBMI_def fetch_recentProgress_def)
next
  show "currentBMI user_70_target_70 (fetch_recentProgress two_progress_records 1 3000)
        = Some (258 / 10)"
    by (rule currentBMI_79_175)
next
  show "currentBMI user_80_height_160 (fetch_recentProgress [progress_at 1000 80] 1 3000)
        = Some (312 / 10)"
    by (rule currentBMI_80_160)
qed

theorem currentBMI_most_recent_witness:
  "progress_in_window two_progress_records 1 3000 \<noteq> []
   \<and> 100 \<le> height user_70_target_70 \<and> height user_70_target_70 \<le> 250
   \<and> list_all (\<lambda>p. 20 \<le> p_weight p \<and> p_weight p \<le> 300) two_progress_records
   \<and> hd (progress_in_window two_progress_records 1 3000) = progress_at 2000 79
   \<and> currentBMI user_70_target_70 (fetch_recentProgress two_progress_records 1 3000)
       = Some (toFixed1 (double_divide 79 (double_times (double_divide 175 100)
                                              (double_divide 175 100))))
   \<and> currentBMI user_70_target_70 (fetch_recentProgress [] 1 3000) = None"
proof -
  have e: "progress_in_window [] 1 3000 = []"
    by (simp add: progress_in_window_def sort_date_desc_def)
  have h: "100 \<le> height user_70_target_70 \<and> height user_70_target_70 \<le> 250"
    "height user_70_target_70 = 175"
    by (simp_all add: user_70_target_70_def)
  have w: "progress_in_window two_progress_records 1 3000 \<noteq> []"
    "hd (progress_in_window two_progress_records 1 3000) = progress_at 2000 79"
    "p_weight (hd (progress_in_window two_progress_records 1 3000)) = 79"
    unfolding two_progress_window by (simp_all add: progress_at_def)
  have r: "list_all (\<lambda>p. 20 \<le> p_weight p \<and> p_weight p \<le> 300) two_progress_records"
    by (simp add: two_progress_records_def progress_at_def)
  from currentBMI_most_recent [of two_progress_records 1 3000 user_70_target_70] w(1) h(1) r
  have a: "currentBMI user_70_target_70 (fetch_recentProgress two_progress_records 1 3000)
        = Some (toFixed1 (double_divide
                  (p_weight (hd (progress_in_window two_progress_records 1 3000)))
                  (double_times (double_divide (height user_70_target_70) 100)
                     (double_divide (height user_70_target_70) 100))))"
    by blast
  from currentBMI_most_recent [of "[]" 1 3000 user_70_target_70] e
  have b: "currentBMI user_70_target_70 (fetch_recentProgress [] 1 3000) = None"
    by blast
  show ?thesis
    using a b w h r unfolding w(3) h(2) by simp
qed

subsection \<open>C8: weight trend\<close>

text \<open>
  C8: for two progress records dated 1000 and 2000, the weight trend lists the record of
  2000 first: the series is in descending date order, not ascending.
\<close>

theorem weightTrend_latest_first:
  "weightTrend (fetch_recentProgress two_progress_records 1 3000) = [(2000, 79), (1000, 80)]
   \<and> \<not> sorted (map fst (weightTrend (fetch_recentProgress two_progress_records 1 3000)))"
  unfolding two_progress_recent by (simp add: weightTrend_def progress_at_def)

text \<open>In general the dates of the weight trend never increase along the series.\<close>

lemma weightTrend_descending:
  "sorted_wrt (\<lambda>a b. fst b \<le> fst a) (weightTrend (fetch_recentProgress coll uid now))"
  unfolding weightTrend_def fetch_recentProgress_def
  using sorted_wrt_take [OF progress_in_window_sorted, of 10 coll uid now]
  by (simp add: sorted_wrt_map)

subsection \<open>C9: BMI category\<close>

lemma category_of_mono: "x \<le> y \<Longrightarrow> category_rank (category_of x) \<le> category_rank (category_of y)"
  by (simp add: category_of_def)

lemma category_of_boundaries:
  "category_of (185 / 10) = Normal_weight" "category_of 25 = Overweight" "category_of 30 = Obese"
  by (simp_all add: category_of_def)

lemma category_of_ranges:
  "category_of b = Underweight \<longleftrightarrow> b < 185 / 10"
  "category_of b = Normal_weight \<longleftrightarrow> 185 / 10 \<le> b \<and> b < 25"
  "category_of b = Overweight \<longleftrightarrow> 25 \<le> b \<and> b < 30"
  "category_of b = Obese \<longleftrightarrow> 30 \<le> b"
  by (auto simp: category_of_def)

text \<open>Every operation of the BMI of a progress record is monotone in the weight.\<close>

lemma progress_bmi_mono:
  assumes "0 \<le> d" "w1 \<le> w2"
  shows "double_divide (Math_round (double_times (double_divide w1 d) 10)) 10
           \<le> double_divide (Math_round (double_times (double_divide w2 d) 10)) 10"
proof -
  have "w1 / d \<le> w2 / d"
    by (rule divide_right_mono [OF assms(2) assms(1)])
  then have "double_divide w1 d \<le> double_divide w2 d"
    unfolding double_divide_def by (rule double_of_mono)
  then have "double_divide w1 d * 10 \<le> double_divide w2 d * 10"
    by simp
  then have "double_times (double_divide w1 d) 10 \<le> double_times (double_divide w2 d) 10"
    unfolding double_times_def by (rule double_of_mono)
  then have "Math_round (double_times (double_divide w1 d) 10)
               \<le> Math_round (double_times (double_divide w2 d) 10)"
    by (rule Math_round_mono)
  then have "Math_round (double_times (double_divide w1 d) 10) / 10
               \<le> Math_round (double_times (double_divide w2 d) 10) / 10"
    by simp
  then show ?thesis
    unfolding double_divide_def [of "Math_round _"] by (rule double_of_mono)
qed

lemma squared_height_nonneg: "0 \<le> double_times (double_divide h 100) (double_divide h 100)"
  unfolding double_times_def by (rule double_of_nonneg) simp

text \<open>The computations of the examples, operation by operation.\<close>

lemma bmi_74_200_1: "double_divide 200 100 = 2"
  unfolding double_divide_def
  by (subst double_of_eval [where a = 51]) (simp_all add: round_half_even_def)

lemma bmi_74_200_2: "double_times 2 2 = 4"
  unfolding double_times_def
  by (subst double_of_eval [where a = 50]) (simp_all add: round_half_even_def)

lemma bmi_74_200_3: "double_divide 74 4 = 37 / 2"
  unfolding double_divide_def
  by (subst double_of_eval [where a = 48]) (simp_all add: round_half_even_def)

lemma bmi_74_200_4: "double_times (37 / 2) 10 = 185"
  unfolding double_times_def
  by (subst double_of_eval [where a = 45]) (simp_all add: round_half_even_def)

lemma bmi_74_200_5: "double_divide 185 10 = 37 / 2"
  unfolding double_divide_def
  by (subst double_of_eval [where a = 48]) (simp_all add: round_half_even_def)

lemma bmi_100_200_1: "double_divide 200 100 = 2"
  unfolding double_divide_def
  by (subst double_of_eval [where a = 51]) (simp_all add: round_half_even_def)

lemma bmi_100_200_2: "double_times 2 2 = 4"
  unfolding double_times_def
  by (subst double_of_eval [where a = 50]) (simp_all add: round_half_even_def)

lemma bmi_100_200_3: "double_divide 100 4 = 25"
  unfolding double_divide_def
  by (subst double_of_eval [where a = 48]) (simp_all add: round_half_even_def)

lemma bmi_100_200_4: "double_times 25 10 = 250"
  unfolding double_times_def
  by (subst double_of_eval [where a = 45]) (simp_all add: round_half_even_def)

lemma bmi_100_200_5: "double_divide 250 10 = 25"
  unfolding double_divide_def
  by (subst double_of_eval [where a = 48]) (simp_all add: round_half_even_def)

lemma bmi_80_160_p_1: "double_divide 160 100 = 3602879701896397 / 2251799813685248"
  unfolding double_divide_def
  by (subst double_of_eval [where a = 52]) (simp_all add: round_half_even_def)

lemma bmi_80_160_p_2: "double_times (3602879701896397 / 2251799813685248) (3602879701896397 / 2251799813685248) = 1441151880758559 / 562949953421312"
  unfolding double_times_def
  by (subst double_of_eval [where a = 51]) (simp_all add: round_half_even_def)

lemma bmi_80_160_p_3: "double_divide 80 (1441151880758559 / 562949953421312) = 4398046511103999 / 140737488355328"
  unfolding double_divide_def
  by (subst double_of_eval [where a = 48]) (simp_all add: round_half_even_def)

lemma bmi_80_160_p_4: "double_times (4398046511103999 / 140737488355328) 10 = 5497558138879999 / 17592186044416"
  unfolding double_times_def
  by (subst double_of_eval [where a = 44]) (simp_all add: round_half_even_def)

lemma bmi_80_160_p_5: "double_divide 312 10 = 8782019273372467 / 281474976710656"
  unfolding double_divide_def
  by (subst double_of_eval [where a = 48]) (simp_all add: round_half_even_def)

lemmas bmi_74_200 = bmi_74_200_1 bmi_74_200_2 bmi_74_200_3 bmi_74_200_4 bmi_74_200_5

lemmas bmi_100_200 = bmi_100_200_1 bmi_100_200_2 bmi_100_200_3 bmi_100_200_4 bmi_100_200_5

lemmas bmi_80_160_p = bmi_80_160_p_1 bmi_80_160_p_2 bmi_80_160_p_3 bmi_80_160_p_4
  bmi_80_160_p_5

text \<open>
  A weight of 80 kg at 160 cm: the quotient in doubles is 31.249999999999993 and the BMI of
  the record is the double of 31.2.
\<close>

lemma getBMICategory_80_160:
  "getBMICategory users_height_160 (progress_of_weight 80) = Inr (double_of (312 / 10), Obese)"
proof -
  have d: "double_of (312 / 10) = 8782019273372467 / 281474976710656"
    using bmi_80_160_p_5 by (simp add: double_divide_def)
  show ?thesis
    unfolding d
    by (simp add: getBMICategory_def progress_calculateBMI_def users_height_160_def
        user_80_height_160_def progress_of_weight_def Let_def Math_round_def category_of_def
        bmi_80_160_p)
qed

text \<open>
  C9: for a user whose height is in [100, 250] and progress weights in [20, 300],
  \<^verbatim>\<open>getBMICategory\<close> resolves with the BMI rounded to one decimal, in doubles, and one of
  the four categories; the thresholds 18.5, 25 and 30 belong to the upper category; and the
  category does not go down when the weight goes up with the height fixed.
\<close>

theorem getBMICategory_monotone:
  "category_of (185 / 10) = Normal_weight \<and> category_of 25 = Overweight \<and> category_of 30 = Obese
   \<and> (users (p_user p1) = Some u \<and> p_user p2 = p_user p1
   \<and> 100 \<le> height u \<and> height u \<le> 250
   \<and> 20 \<le> p_weight p1 \<and> p_weight p1 \<le> p_weight p2 \<and> p_weight p2 \<le> 300
   \<longrightarrow> (\<exists>b1 c1 b2 c2.
          getBMICategory users p1 = Inr (b1, c1) \<and> getBMICategory users p2 = Inr (b2, c2)
          \<and> b1 = double_divide (Math_round (double_times
                    (double_divide (p_weight p1)
                       (double_times (double_divide (height u) 100)
                          (double_divide (height u) 100))) 10)) 10
          \<and> c1 \<in> {Underweight, Normal_weight, Overweight, Obese}
          \<and> (c1 = Underweight \<longleftrightarrow> b1 < 185 / 10)
          \<and> (c1 = Normal_weight \<longleftrightarrow> 185 / 10 \<le> b1 \<and> b1 < 25)
          \<and> (c1 = Overweight \<longleftrightarrow> 25 \<le> b1 \<and> b1 < 30)
          \<and> (c1 = Obese \<longleftrightarrow> 30 \<le> b1)
          \<and> b1 \<le> b2
          \<and> category_rank c1 \<le> category_rank c2))"
proof (intro conjI impI)
  show "category_of (185 / 10) = Normal_weight" "category_of 25 = Overweight"
    "category_of 30 = Obese"
    by (rule category_of_boundaries)+
next
  assume a: "users (p_user p1) = Some u \<and> p_user p2 = p_user p1
   \<and> 100 \<le> height u \<and> height u \<le> 250
   \<and> 20 \<le> p_weight p1 \<and> p_weight p1 \<le> p_weight p2 \<and> p_weight p2 \<le> 300"
  define d where "d = double_times (double_divide (height u) 100) (double_divide (height u) 100)"
  define b1 where "b1 = double_divide (Math_round (double_times
                    (double_divide (p_weight p1) d) 10)) 10"
  define b2 where "b2 = double_divide (Math_round (double_times
                    (double_divide (p_weight p2) d) 10)) 10"
  have g1: "getBMICategory users p1 = Inr (b1, category_of b1)"
    using a by (simp add: getBMICategory_def progress_calculateBMI_def Let_def b1_def d_def)
  have g2: "getBMICategory users p2 = Inr (b2, category_of b2)"
    using a by (simp add: getBMICategory_def progress_calculateBMI_def Let_def b2_def d_def)
  have "0 \<le> d"
    unfolding d_def by (rule squared_height_nonneg)
  then have le: "b1 \<le> b2"
    unfolding b1_def b2_def using a by (intro progress_bmi_mono) simp_all
  have four: "category_of b1 \<in> {Underweight, Normal_weight, Overweight, Obese}"
    by (cases "category_of b1") simp_all
  have e: "b1 = double_divide (Math_round (double_times
                    (double_divide (p_weight p1)
                       (double_times (double_divide (height u) 100)
                          (double_divide (height u) 100))) 10)) 10"
    unfolding b1_def d_def ..
  show "\<exists>b1 c1 b2 c2.
          getBMICategory users p1 = Inr (b1, c1) \<and> getBMICategory users p2 = Inr (b2, c2)
          \<and> b1 = double_divide (Math_round (double_times
                    (double_divide (p_weight p1)
                       (double_times (double_divide (height u) 100)
                          (double_divide (height u) 100))) 10)) 10
          \<and> c1 \<in> {Underweight, Normal_weight, Overweight, Obese}
          \<and> (c1 = Underweight \<longleftrightarrow> b1 < 185 / 10)
          \<and> (c1 = Normal_weight \<longleftrightarrow> 185 / 10 \<le> b1 \<and> b1 < 25)
          \<and> (c1 = Overweight \<longleftrightarrow> 25 \<le> b1 \<and> b1 < 30)
          \<and> (c1 = Obese \<longleftrightarrow> 30 \<le> b1)
          \<and> b1 \<le> b2
          \<and> category_rank c1 \<le> category_rank c2"
    using g1 g2 le four category_of_mono [OF le] category_of_ranges [of b1] e
    by blast
qed

theorem getBMICategory_monotone_witness:
  "getBMICategory users_height_200 (progress_of_weight 74) = Inr (185 / 10, Normal_weight)
   \<and> getBMICategory users_height_200 (progress_of_weight 100) = Inr (25, Overweight)
   \<and> category_rank (snd (projr (getBMICategory users_height_200 (progress_of_weight 74))))
       \<le> category_rank (snd (projr (getBMICategory users_height_200 (progress_of_weight 100))))"
proof -
  let ?u = "\<lparr>gender = ''male'', age = 30, weight = 80, height = 200,
             activityLevel = ''moderately_active'', targetWeight = None\<rparr>"
  have h: "users_height_200 (p_user (progress_of_weight 74)) = Some ?u
     \<and> p_user (progress_of_weight 100) = p_user (progress_of_weight 74)
     \<and> 100 \<le> height ?u \<and> height ?u \<le> 250
     \<and> 20 \<le> p_weight (progress_of_weight 74)
     \<and> p_weight (progress_of_weight 74) \<le> p_weight (progress_of_weight 100)
     \<and> p_weight (progress_of_weight 100) \<le> 300"
    by (simp add: users_height_200_def progress_of_weight_def)
  from getBMICategory_monotone
         [of users_height_200 "progress_of_weight 74" ?u "progress_of_weight 100"] h
  obtain b1 c1 b2 c2 where
    g: "getBMICategory users_height_200 (progress_of_weight 74) = Inr (b1, c1)"
       "getBMICategory users_height_200 (progress_of_weight 100) = Inr (b2, c2)"
    and r: "category_rank c1 \<le> category_rank c2"
    by blast
  have e1: "getBMICategory users_height_200 (progress_of_weight 74) = Inr (185 / 10, Normal_weight)"
    by (simp add: getBMICategory_def progress_calculateBMI_def users_height_200_def
        progress_of_weight_def Let_def Math_round_def category_of_def bmi_74_200)
  have e2: "getBMICategory users_height_200 (progress_of_weight 100) = Inr (25, Overweight)"
    by (simp add: getBMICategory_def progress_calculateBMI_def users_height_200_def
        progress_of_weight_def Let_def Math_round_def category_of_def bmi_100_200)
  show ?thesis using g r e1 e2 by simp
qed

subsection \<open>C10: progress summary over the ten latest records\<close>



end
